theory Spec2Isabelle
  imports Main "HOL-Library.AList"
begin

section \<open>TodoContext: the todo list held in React state\<close>

text \<open>
  \<^verbatim>\<open>interface Todo { id: string; text: string; completed: boolean }\<close>.
  The provider keeps \<^verbatim>\<open>todos: Todo[]\<close> and every operation is a functional update
  \<^verbatim>\<open>setTodos(prev => ...)\<close>: a pure function from the previous list to the next one.
\<close>

record Todo =
  todo_id :: string
  todo_text :: string
  completed :: bool

text \<open>
  \<^verbatim>\<open>prevTodos.map(todo => todo.id === id ? { ...todo, completed: !todo.completed } : todo)\<close>
\<close>

definition toggleTodo :: "string \<Rightarrow> Todo list \<Rightarrow> Todo list" where
  "toggleTodo i prevTodos =
     map (\<lambda>todo. if todo_id todo = i then todo\<lparr>completed := \<not> completed todo\<rparr> else todo) prevTodos"

section \<open>PhonePeService: opening the app and polling the status\<close>

text \<open>
  A value thrown by a JavaScript call: an \<^verbatim>\<open>Error\<close> object with its message, or any other value.
  A promise that rejects, or a call that throws, is \<open>Inl\<close> of the thrown value; a normal
  result is \<open>Inr\<close>.
\<close>

datatype thrown = ErrorObject string | OtherValue

text \<open>
  React Native's \<^verbatim>\<open>Linking\<close> module is the environment of \<^verbatim>\<open>openPhonePeApp\<close>: what
  \<^verbatim>\<open>Linking.canOpenURL\<close> and \<^verbatim>\<open>Linking.openURL\<close> answer for a URL is a parameter, and the
  calls made are returned with the result, in the order they are made.
\<close>

record Linking =
  canOpenURL :: "string \<Rightarrow> thrown + bool"
  openURL :: "string \<Rightarrow> thrown + unit"

datatype linking_call = CanOpenURL string | OpenURL string

text \<open>The body of the \<^verbatim>\<open>try\<close> block: either a thrown value or the value returned.\<close>

definition openPhonePeApp_try :: "Linking \<Rightarrow> string \<Rightarrow> (thrown + bool) \<times> linking_call list" where
  "openPhonePeApp_try linking redirectUrl =
     (case canOpenURL linking redirectUrl of
        Inl e \<Rightarrow> (Inl e, [CanOpenURL redirectUrl])
      | Inr supported \<Rightarrow>
          if supported then
            (case openURL linking redirectUrl of
               Inl e \<Rightarrow> (Inl e, [CanOpenURL redirectUrl, OpenURL redirectUrl])
             | Inr _ \<Rightarrow> (Inr True, [CanOpenURL redirectUrl, OpenURL redirectUrl]))
          else (Inr False, [CanOpenURL redirectUrl]))"

text \<open>
  \<^verbatim>\<open>try { ... } catch (error) { console.error(...); return false; }\<close>: the promise that
  \<^verbatim>\<open>openPhonePeApp\<close> returns settles with \<open>Inr b\<close> (resolved with \<open>b\<close>) or \<open>Inl e\<close> (rejected).
\<close>

definition openPhonePeApp :: "Linking \<Rightarrow> string \<Rightarrow> (thrown + bool) \<times> linking_call list" where
  "openPhonePeApp linking redirectUrl =
     (case openPhonePeApp_try linking redirectUrl of
        (Inl error, calls) \<Rightarrow> (Inr False, calls)
      | (Inr b, calls) \<Rightarrow> (Inr b, calls))"

datatype PhonePeStatus = SUCCESS | PENDING | FAILURE | UNKNOWN

definition statuses :: "PhonePeStatus list" where
  "statuses = [SUCCESS, PENDING, FAILURE]"

text \<open>
  \<^verbatim>\<open>statuses[k]\<close>: JavaScript answers \<^verbatim>\<open>undefined\<close> (here \<open>None\<close>) outside the array.
\<close>

definition js_index :: "'a list \<Rightarrow> int \<Rightarrow> 'a option" where
  "js_index xs k = (if 0 \<le> k \<and> k < int (length xs) then Some (xs ! nat k) else None)"

text \<open>
  The \<^verbatim>\<open>try\<close> block of \<^verbatim>\<open>checkPhonePeTransactionStatusOnServer\<close> holds the (simulated)
  status request. Its run is the second argument: \<open>Inl e\<close> when a statement of the block
  throws \<open>e\<close>, and \<open>Inr k\<close> when none does and
  \<^verbatim>\<open>Math.floor(Math.random() * statuses.length)\<close> evaluates to the integer \<open>k\<close>
  (the floating-point draw itself is outside the model).
\<close>

definition checkPhonePeTransactionStatusOnServer ::
    "string \<Rightarrow> thrown + int \<Rightarrow> thrown + PhonePeStatus option" where
  "checkPhonePeTransactionStatusOnServer transactionId run =
     (case run of
        Inr k \<Rightarrow> Inr (js_index statuses k)
      | Inl error \<Rightarrow> Inr (Some UNKNOWN))"

section \<open>ServerSentEventsService: tracked EventSource connections\<close>

text \<open>
  \<^verbatim>\<open>EventSource\<close> is the class that the file imports from react-native-sse. That class
  keeps the state of a connection in a field \<^verbatim>\<open>status\<close> and carries the numbers
  \<^verbatim>\<open>CONNECTING = 0\<close>, \<^verbatim>\<open>OPEN = 1\<close> and \<^verbatim>\<open>CLOSED = 2\<close> as fields of every instance. It has
  no property \<^verbatim>\<open>readyState\<close> and no static constants, so the expressions
  \<^verbatim>\<open>eventSource.readyState\<close>, \<^verbatim>\<open>EventSource.CONNECTING\<close>, \<^verbatim>\<open>EventSource.OPEN\<close> and
  \<^verbatim>\<open>EventSource.CLOSED\<close>, which the service evaluates, all give \<^verbatim>\<open>undefined\<close>: here
  \<open>None\<close>, where \<open>Some n\<close> would be the number \<open>n\<close>. The model keeps of an object the URL and the
  options it was created with, its \<^verbatim>\<open>status\<close>, and the listeners attached with
  \<^verbatim>\<open>addEventListener\<close>, in the order they were attached. A new object has status
  CONNECTING and no listeners, \<^verbatim>\<open>close()\<close> sets the status to CLOSED.
\<close>

definition EventSource_CONNECTING :: "nat option" where "EventSource_CONNECTING = None"
definition EventSource_OPEN :: "nat option" where "EventSource_OPEN = None"
definition EventSource_CLOSED :: "nat option" where "EventSource_CLOSED = None"

text \<open>
  A listener is a function object, compared by reference (\<^verbatim>\<open>===\<close>). A function handed to
  \<^verbatim>\<open>addListener\<close> is \<open>UserListener n\<close>, with \<open>n\<close> naming the object; the two logging closures
  that \<^verbatim>\<open>connect\<close> creates for a connection id are \<open>LogOpen id\<close> and \<open>LogError id\<close>.
\<close>

datatype es_listener = LogOpen string | LogError string | UserListener nat

type_synonym EventSourceInit = "(string \<times> string) list"

record EventSource =
  es_url :: string
  es_options :: EventSourceInit
  es_status :: int
  es_listeners :: "(string \<times> es_listener) list"

definition readyState :: "EventSource \<Rightarrow> nat option" where
  "readyState es = None"

definition new_EventSource :: "string \<Rightarrow> EventSourceInit \<Rightarrow> EventSource" where
  "new_EventSource url opts =
     \<lparr>es_url = url, es_options = opts, es_status = 0, es_listeners = []\<rparr>"

definition addEventListener :: "string \<Rightarrow> es_listener \<Rightarrow> EventSource \<Rightarrow> EventSource" where
  "addEventListener type listener es = es\<lparr>es_listeners := es_listeners es @ [(type, listener)]\<rparr>"

definition removeEventListener :: "string \<Rightarrow> es_listener \<Rightarrow> EventSource \<Rightarrow> EventSource" where
  "removeEventListener type listener es =
     es\<lparr>es_listeners := filter (\<lambda>h. h \<noteq> (type, listener)) (es_listeners es)\<rparr>"

definition es_close :: "EventSource \<Rightarrow> EventSource" where
  "es_close es = es\<lparr>es_status := 2\<rparr>"

text \<open>
  The three \<^verbatim>\<open>Map\<close>s of the service are association lists in insertion order:
  \<^verbatim>\<open>get\<close> is \<^const>\<open>map_of\<close>, \<^verbatim>\<open>set\<close> is \<^const>\<open>AList.update\<close> (a key that is present
  keeps its place, a new key goes to the end), \<^verbatim>\<open>delete\<close> is \<^const>\<open>AList.delete\<close>.
  \<open>closedSources\<close> lists the objects on which the service has called \<^verbatim>\<open>close()\<close>, in
  their closed state: they are no longer reachable from the service.
\<close>

record ServerSentEventsService =
  eventSources :: "(string \<times> EventSource) list"
  eventListeners :: "(string \<times> (string \<times> nat) list) list"
  connectionParams :: "(string \<times> (string \<times> EventSourceInit)) list"
  closedSources :: "EventSource list"

definition new_ServerSentEventsService :: ServerSentEventsService where
  "new_ServerSentEventsService =
     \<lparr>eventSources = [], eventListeners = [], connectionParams = [], closedSources = []\<rparr>"

definition close :: "string \<Rightarrow> ServerSentEventsService \<Rightarrow> ServerSentEventsService" where
  "close cid s =
     (case map_of (eventSources s) cid of
        Some eventSource \<Rightarrow>
          s\<lparr>closedSources := closedSources s @ [es_close eventSource],
            eventSources := AList.delete cid (eventSources s)\<rparr>
      | None \<Rightarrow> s)"

text \<open>
  \<^verbatim>\<open>connect\<close>. The source stores the new object in \<^verbatim>\<open>eventSources\<close> and attaches the
  listeners to it afterwards; the map holds a reference, so the entry is the object with
  all listeners attached, which is what the model stores. The order of the other
  statements is the source's: \<^verbatim>\<open>this.eventListeners.set(id, [])\<close> comes before
  \<^verbatim>\<open>this.eventListeners.get(id) || []\<close> is read for the re-attachment.
\<close>

definition connect ::
    "string \<Rightarrow> string \<Rightarrow> EventSourceInit \<Rightarrow> ServerSentEventsService \<Rightarrow>
     ServerSentEventsService \<times> EventSource" where
  "connect cid url opts s =
     (let s1 = close cid s;
          s2 = s1\<lparr>connectionParams := AList.update cid (url, opts) (connectionParams s1)\<rparr>;
          eventSource0 = new_EventSource url opts;
          s3 = s2\<lparr>eventListeners := AList.update cid [] (eventListeners s2)\<rparr>;
          eventSource1 = addEventListener ''open'' (LogOpen cid) eventSource0;
          eventSource2 = addEventListener ''error'' (LogError cid) eventSource1;
          existingListeners = (case map_of (eventListeners s3) cid of Some ls \<Rightarrow> ls | None \<Rightarrow> []);
          eventSource3 =
            foldl (\<lambda>es (type, listener). addEventListener type (UserListener listener) es)
              eventSource2 existingListeners
      in (s3\<lparr>eventSources := AList.update cid eventSource3 (eventSources s3)\<rparr>, eventSource3))"

definition addListener ::
    "string \<Rightarrow> string \<Rightarrow> nat \<Rightarrow> ServerSentEventsService \<Rightarrow> ServerSentEventsService" where
  "addListener cid type listener s =
     (case map_of (eventSources s) cid of
        None \<Rightarrow> s
      | Some eventSource \<Rightarrow>
          (let s1 = s\<lparr>eventSources :=
                       AList.update cid (addEventListener type (UserListener listener) eventSource)
                         (eventSources s)\<rparr>;
               listeners = (case map_of (eventListeners s1) cid of Some ls \<Rightarrow> ls | None \<Rightarrow> [])
           in if (type, listener) \<in> set listeners then s1
              else s1\<lparr>eventListeners :=
                        AList.update cid (listeners @ [(type, listener)]) (eventListeners s1)\<rparr>))"

definition removeListener ::
    "string \<Rightarrow> string \<Rightarrow> nat \<Rightarrow> ServerSentEventsService \<Rightarrow> ServerSentEventsService" where
  "removeListener cid type listener s =
     (case map_of (eventSources s) cid of
        None \<Rightarrow> s
      | Some eventSource \<Rightarrow>
          (let s1 = s\<lparr>eventSources :=
                       AList.update cid (removeEventListener type (UserListener listener) eventSource)
                         (eventSources s)\<rparr>;
               listeners = (case map_of (eventListeners s1) cid of Some ls \<Rightarrow> ls | None \<Rightarrow> []);
               updatedListeners = filter (\<lambda>l. l \<noteq> (type, listener)) listeners
           in s1\<lparr>eventListeners := AList.update cid updatedListeners (eventListeners s1)\<rparr>))"

definition reconnect :: "string \<Rightarrow> ServerSentEventsService \<Rightarrow> ServerSentEventsService" where
  "reconnect cid s =
     (case map_of (connectionParams s) cid of
        None \<Rightarrow> s
      | Some (url, opts) \<Rightarrow> fst (connect cid url opts s))"

text \<open>
  The \<^verbatim>\<open>switch\<close> compares with \<^verbatim>\<open>===\<close>, case by case in the order written.
\<close>

definition getConnectionStateString :: "nat option \<Rightarrow> string" where
  "getConnectionStateString rs =
     (if rs = EventSource_CONNECTING then ''connecting''
      else if rs = EventSource_OPEN then ''open''
      else if rs = EventSource_CLOSED then ''closed''
      else ''unknown'')"

definition getConnectionState :: "string \<Rightarrow> ServerSentEventsService \<Rightarrow> string option" where
  "getConnectionState cid s =
     (case map_of (eventSources s) cid of
        None \<Rightarrow> None
      | Some eventSource \<Rightarrow> Some (getConnectionStateString (readyState eventSource)))"

text \<open>
  \<^verbatim>\<open>reconnectAllIfNeeded\<close> runs \<^verbatim>\<open>for (const [id, eventSource] of this.eventSources.entries())\<close>
  while \<^verbatim>\<open>connect\<close> deletes and re-inserts entries of that same map. A \<^verbatim>\<open>Map\<close> iterator is
  live: it visits the entries in insertion order, an entry deleted and set again is a new
  entry at the end, and entries added during the iteration are visited too. The loop
  therefore carries the number \<open>k\<close> of entries that stand before the iterator's position.
  When the body calls \<^verbatim>\<open>connect\<close> for the current entry, that entry leaves its place and the
  next one moves to position \<open>k\<close>; otherwise the iterator steps to \<open>k + 1\<close>. The loop need
  not come to an end: the result is \<open>None\<close> when it does not, and \<open>Some\<close> of the service it
  leaves behind when it does.
\<close>

partial_function (option) reconnect_loop ::
    "nat \<Rightarrow> ServerSentEventsService \<Rightarrow> ServerSentEventsService option" where
  "reconnect_loop k s =
     (if k < length (eventSources s) then
        (case eventSources s ! k of
           (cid, eventSource) \<Rightarrow>
             if readyState eventSource = EventSource_CLOSED then
               (case map_of (connectionParams s) cid of
                  Some (url, opts) \<Rightarrow> reconnect_loop k (fst (connect cid url opts s))
                | None \<Rightarrow> reconnect_loop (Suc k) s)
             else reconnect_loop (Suc k) s)
      else Some s)"

definition reconnectAllIfNeeded ::
    "ServerSentEventsService \<Rightarrow> ServerSentEventsService option" where
  "reconnectAllIfNeeded s = reconnect_loop 0 s"

text \<open>
  \<^verbatim>\<open>AppStateStatus\<close> of React Native, and the callback that \<^verbatim>\<open>setupAppStateListener\<close>
  registers. Of the five states, \<^verbatim>\<open>/inactive|background/\<close> matches \<open>inactive\<close> and
  \<open>background\<close>; that branch only logs. The callback returns when the loop does.
\<close>

datatype AppStateStatus = active | background | inactive | unknown | extension

definition sse_appStateChange ::
    "AppStateStatus \<Rightarrow> ServerSentEventsService \<Rightarrow> ServerSentEventsService option" where
  "sse_appStateChange nextAppState s =
     (if nextAppState = active then reconnectAllIfNeeded s
      else if nextAppState = inactive \<or> nextAppState = background then Some s
      else Some s)"

text \<open>
  The callback that \<^verbatim>\<open>setupNetworkListener\<close> registers. NetInfo's \<^verbatim>\<open>isConnected\<close> and
  \<^verbatim>\<open>isInternetReachable\<close> are \<^verbatim>\<open>boolean | null\<close>; \<^verbatim>\<open>null\<close> is falsy.
\<close>

record NetInfoState =
  isConnected :: "bool option"
  isInternetReachable :: "bool option"

definition sse_netInfoChange ::
    "NetInfoState \<Rightarrow> ServerSentEventsService \<Rightarrow> ServerSentEventsService option" where
  "sse_netInfoChange state s =
     (if isConnected state = Some True \<and> isInternetReachable state = Some True
      then reconnectAllIfNeeded s
      else Some s)"

section \<open>WebSocketService: a Socket.IO connection with status tracking\<close>

datatype WebSocketStatus = CONNECTING | OPEN | CLOSING | CLOSED | RECONNECTING

definition status_string :: "WebSocketStatus \<Rightarrow> string" where
  "status_string st =
     (case st of CONNECTING \<Rightarrow> ''CONNECTING'' | OPEN \<Rightarrow> ''OPEN'' | CLOSING \<Rightarrow> ''CLOSING''
      | CLOSED \<Rightarrow> ''CLOSED'' | RECONNECTING \<Rightarrow> ''RECONNECTING'')"

text \<open>
  \<^verbatim>\<open>this.options\<close> is \<^verbatim>\<open>{ ...DEFAULT_OPTIONS, ...options }\<close>: every field is present. The
  \<^verbatim>\<open>auth\<close> option is never read by the service and is left out.
\<close>

record WebSocketServiceOptions =
  reconnection :: bool
  reconnectionAttempts :: nat
  reconnectionDelay :: nat
  reconnectionDelayMax :: nat
  autoConnect :: bool
  queueMessages :: bool
  path :: string
  transports :: "string list"

definition DEFAULT_OPTIONS :: WebSocketServiceOptions where
  "DEFAULT_OPTIONS =
     \<lparr>reconnection = True, reconnectionAttempts = 5, reconnectionDelay = 1000,
      reconnectionDelayMax = 10000, autoConnect = False, queueMessages = True,
      path = ''/socket.io'', transports = [''websocket'', ''polling'']\<rparr>"

text \<open>
  The \<^verbatim>\<open>Socket\<close> object belongs to socket.io-client. The service reads its \<^verbatim>\<open>connected\<close> and
  \<^verbatim>\<open>connecting\<close> properties and calls \<^verbatim>\<open>emit\<close>, \<^verbatim>\<open>disconnect\<close> and \<^verbatim>\<open>connect\<close> on it. What
  the library will do on the coming \<^verbatim>\<open>emit\<close> calls is part of the socket, as a script: every
  call takes the next outcome, which says whether the call throws and whether the socket is
  connected when the call is over. With the script used up, \<^verbatim>\<open>emit\<close> returns normally and
  the socket stays as it is. \<open>anyListener\<close> says whether \<^verbatim>\<open>setupEventHandlers\<close> has attached
  its \<^verbatim>\<open>onAny\<close> listener to the socket, which it does when \<^verbatim>\<open>onMessageCallback\<close> is set at
  that moment.
\<close>

record emit_outcome =
  emit_throws :: "thrown option"
  connected_after :: bool

record Socket =
  connected :: bool
  connecting :: bool
  anyListener :: bool
  emit_script :: "emit_outcome list"

definition socket_emit :: "Socket \<Rightarrow> thrown option \<times> Socket" where
  "socket_emit k =
     (case emit_script k of
        [] \<Rightarrow> (None, k)
      | out # rest \<Rightarrow> (emit_throws out, k\<lparr>connected := connected_after out, emit_script := rest\<rparr>))"

definition socket_disconnect :: "Socket \<Rightarrow> Socket" where
  "socket_disconnect k = k\<lparr>connected := False, connecting := False\<rparr>"

text \<open>
  A callback is a function of the application, named by a number. Calling it is an effect
  of the service, recorded with its arguments in \<open>effects\<close>, as are the calls on the socket;
  the application's callbacks are taken not to call back into the service while they run.
\<close>

type_synonym callback = nat

datatype 'a effect =
    OnStatusChange callback WebSocketStatus
  | OnOpen callback
  | OnClose callback string
  | OnError callback thrown
  | OnMessage callback string "'a list"
  | SocketEmit string "'a list"
  | SocketDisconnect
  | SocketOn string callback
  | SocketOff string "callback option"
  | SocketRemoveAllListeners
  | IoConnect "string option" "string option"

datatype AuthToken = TokenString string | TokenProvider

text \<open>
  \<^verbatim>\<open>connect\<close> is \<^verbatim>\<open>async\<close>: its statements up to \<^verbatim>\<open>await this.getAuthData()\<close> run when it
  is called, the rest runs later. \<^verbatim>\<open>getAuthData\<close> is called before the suspension and reads
  \<^verbatim>\<open>this.authToken\<close> then. \<open>pendingAuth\<close> holds, for every call of \<^verbatim>\<open>connect\<close> that is
  suspended, the token it has read; \<open>awaitingAuth\<close> is the number of suspended calls.
\<close>

record 'a WebSocketService =
  socket :: "Socket option"
  connectionUrl :: "string option"
  options :: WebSocketServiceOptions
  status :: WebSocketStatus
  explicitDisconnect :: bool
  messageQueue :: "(string \<times> 'a list) list"
  authToken :: "AuthToken option"
  onMessageCallback :: "callback option"
  onOpenCallback :: "callback option"
  onCloseCallback :: "callback option"
  onErrorCallback :: "callback option"
  onStatusChangeCallback :: "callback option"
  pendingAuth :: "AuthToken option list"
  effects :: "'a effect list"

definition awaitingAuth :: "'a WebSocketService \<Rightarrow> nat" where
  "awaitingAuth s = length (pendingAuth s)"

text \<open>\<^verbatim>\<open>if (url)\<close>, \<^verbatim>\<open>if (!this.connectionUrl)\<close>: an absent or empty string is falsy.\<close>

definition truthy :: "string option \<Rightarrow> bool" where
  "truthy u = (case u of Some x \<Rightarrow> x \<noteq> [] | None \<Rightarrow> False)"

text \<open>\<^verbatim>\<open>this.socket && this.socket.connected\<close>, \<^verbatim>\<open>this.socket?.connected\<close>.\<close>

definition socket_connected :: "'a WebSocketService \<Rightarrow> bool" where
  "socket_connected s = (case socket s of Some k \<Rightarrow> connected k | None \<Rightarrow> False)"

definition setOnMessage :: "callback \<Rightarrow> 'a WebSocketService \<Rightarrow> 'a WebSocketService" where
  "setOnMessage cb s = s\<lparr>onMessageCallback := Some cb\<rparr>"

text \<open>
  \<^verbatim>\<open>on\<close> and \<^verbatim>\<open>off\<close> pass a listener of the application to the socket when there is one.
\<close>

definition ws_on :: "string \<Rightarrow> callback \<Rightarrow> 'a WebSocketService \<Rightarrow> 'a WebSocketService" where
  "ws_on eventName cb s =
     (case socket s of
        Some k \<Rightarrow> s\<lparr>effects := effects s @ [SocketOn eventName cb]\<rparr>
      | None \<Rightarrow> s)"

definition ws_off ::
    "string \<Rightarrow> callback option \<Rightarrow> 'a WebSocketService \<Rightarrow> 'a WebSocketService" where
  "ws_off eventName cb s =
     (case socket s of
        Some k \<Rightarrow> s\<lparr>effects := effects s @ [SocketOff eventName cb]\<rparr>
      | None \<Rightarrow> s)"

definition setOnOpen :: "callback \<Rightarrow> 'a WebSocketService \<Rightarrow> 'a WebSocketService" where
  "setOnOpen cb s = s\<lparr>onOpenCallback := Some cb\<rparr>"

definition setOnClose :: "callback \<Rightarrow> 'a WebSocketService \<Rightarrow> 'a WebSocketService" where
  "setOnClose cb s = s\<lparr>onCloseCallback := Some cb\<rparr>"

definition setOnError :: "callback \<Rightarrow> 'a WebSocketService \<Rightarrow> 'a WebSocketService" where
  "setOnError cb s = s\<lparr>onErrorCallback := Some cb\<rparr>"

text \<open>
  \<^verbatim>\<open>this.onStatusChangeCallback = callback; callback(this.status);\<close> The call is not
  guarded here: an exception of the callback reaches the caller of \<^verbatim>\<open>setOnStatusChange\<close>,
  after the callback has been stored and called.
\<close>

definition setOnStatusChange :: "callback \<Rightarrow> 'a WebSocketService \<Rightarrow> 'a WebSocketService" where
  "setOnStatusChange cb s =
     (let s1 = s\<lparr>onStatusChangeCallback := Some cb\<rparr>
      in s1\<lparr>effects := effects s1 @ [OnStatusChange cb (status s1)]\<rparr>)"

definition setAuthToken :: "AuthToken option \<Rightarrow> 'a WebSocketService \<Rightarrow> 'a WebSocketService" where
  "setAuthToken token s = s\<lparr>authToken := token\<rparr>"

text \<open>
  Everywhere else the callbacks are called inside \<^verbatim>\<open>try { ... } catch\<close>, which only logs:
  whether the callback throws makes no difference to the service.
\<close>

definition updateStatus :: "WebSocketStatus \<Rightarrow> 'a WebSocketService \<Rightarrow> 'a WebSocketService" where
  "updateStatus newStatus s =
     (if status s \<noteq> newStatus then
        (let s1 = s\<lparr>status := newStatus\<rparr>
         in case onStatusChangeCallback s1 of
              Some cb \<Rightarrow> s1\<lparr>effects := effects s1 @ [OnStatusChange cb (status s1)]\<rparr>
            | None \<Rightarrow> s1)
      else s)"

definition getStatus :: "'a WebSocketService \<Rightarrow> WebSocketStatus" where
  "getStatus s = status s"

definition handleError :: "thrown \<Rightarrow> 'a WebSocketService \<Rightarrow> 'a WebSocketService" where
  "handleError error s =
     (case onErrorCallback s of
        Some cb \<Rightarrow> s\<lparr>effects := effects s @ [OnError cb error]\<rparr>
      | None \<Rightarrow> s)"

text \<open>\<^verbatim>\<open>error instanceof Error ? error : new Error(message)\<close>\<close>

definition as_Error :: "thrown \<Rightarrow> string \<Rightarrow> thrown" where
  "as_Error error message =
     (case error of ErrorObject m \<Rightarrow> ErrorObject m | OtherValue \<Rightarrow> ErrorObject message)"

definition quoted :: "string \<Rightarrow> string" where
  "quoted x = [CHR 0x27] @ x @ [CHR 0x27]"

text \<open>
  \<^verbatim>\<open>connect\<close>, up to \<^verbatim>\<open>await this.getAuthData()\<close>. An existing socket that is neither
  connected nor connecting is disconnected and dropped before the new attempt.
\<close>

definition ws_connect :: "string option \<Rightarrow> 'a WebSocketService \<Rightarrow> 'a WebSocketService" where
  "ws_connect url s =
     (let s1 = (if truthy url then s\<lparr>connectionUrl := url\<rparr> else s)
      in if \<not> truthy (connectionUrl s1)
         then handleError (ErrorObject ''Connection URL not provided'') s1
         else if socket_connected s1 then s1
         else if (case socket s1 of Some k \<Rightarrow> connecting k | None \<Rightarrow> False) then s1
         else
           (let s2 = (case socket s1 of
                        Some k \<Rightarrow> s1\<lparr>effects := effects s1 @ [SocketDisconnect], socket := None\<rparr>
                      | None \<Rightarrow> s1);
                s3 = s2\<lparr>explicitDisconnect := False\<rparr>;
                s4 = updateStatus CONNECTING s3
            in s4\<lparr>pendingAuth := pendingAuth s4 @ [authToken s4]\<rparr>))"

text \<open>
  The rest of \<^verbatim>\<open>getAuthData\<close>, for the token read at the call and given how the promise of
  a token provider settles. A missing or empty token gives \<^verbatim>\<open>undefined\<close>; a provider that
  fails is reported through \<^verbatim>\<open>handleError\<close>.
\<close>

definition getAuthData ::
    "AuthToken option \<Rightarrow> thrown + string \<Rightarrow> 'a WebSocketService \<Rightarrow>
     string option \<times> 'a WebSocketService" where
  "getAuthData token provided s =
     (case token of
        None \<Rightarrow> (None, s)
      | Some (TokenString tok) \<Rightarrow> (if tok \<noteq> [] then Some tok else None, s)
      | Some TokenProvider \<Rightarrow>
          (case provided of
             Inr tok \<Rightarrow> (if tok \<noteq> [] then Some tok else None, s)
           | Inl error \<Rightarrow> (None, handleError (ErrorObject ''Failed to get auth token'') s)))"

text \<open>
  The rest of \<^verbatim>\<open>connect\<close>, for the suspended call at position \<open>i\<close> of \<open>pendingAuth\<close>, run when
  its \<^verbatim>\<open>await\<close> is over: \<^verbatim>\<open>io(url, ioOptions)\<close> gives a socket, \<^verbatim>\<open>setupEventHandlers\<close>
  attaches the handlers below to it and \<^verbatim>\<open>socket.connect()\<close> is called, or one of these calls
  throws. The fresh socket is the environment's.
\<close>

datatype io_outcome = IoThrows thrown | IoSocket Socket | IoSocketConnectThrows Socket thrown

definition setupEventHandlers :: "'a WebSocketService \<Rightarrow> 'a WebSocketService" where
  "setupEventHandlers s =
     (case socket s of
        None \<Rightarrow> s
      | Some k \<Rightarrow>
          s\<lparr>socket := Some (k\<lparr>anyListener := (onMessageCallback s \<noteq> None)\<rparr>),
            effects := effects s @ [SocketRemoveAllListeners]\<rparr>)"

definition ws_connect_resume ::
    "nat \<Rightarrow> thrown + string \<Rightarrow> io_outcome \<Rightarrow> 'a WebSocketService \<Rightarrow> 'a WebSocketService" where
  "ws_connect_resume i provided io s =
     (if i < length (pendingAuth s) then
        (case getAuthData (pendingAuth s ! i) provided
                (s\<lparr>pendingAuth := take i (pendingAuth s) @ drop (Suc i) (pendingAuth s)\<rparr>) of
           (auth, s1) \<Rightarrow>
             (case io of
                IoSocket k \<Rightarrow>
                  (let s2 = setupEventHandlers (s1\<lparr>socket := Some k\<rparr>)
                   in s2\<lparr>effects := effects s2 @ [IoConnect (connectionUrl s2) auth]\<rparr>)
              | IoSocketConnectThrows k error \<Rightarrow>
                  updateStatus CLOSED
                    (handleError (as_Error error ''Socket.IO initialization failed'')
                       (setupEventHandlers (s1\<lparr>socket := Some k\<rparr>)))
              | IoThrows error \<Rightarrow>
                  updateStatus CLOSED
                    (handleError (as_Error error ''Socket.IO initialization failed'') s1)))
      else s)"

text \<open>
  \<^verbatim>\<open>sendMessage\<close> returns a boolean and changes the service.
\<close>

definition sendMessage ::
    "string \<Rightarrow> 'a list \<Rightarrow> 'a WebSocketService \<Rightarrow> bool \<times> 'a WebSocketService" where
  "sendMessage eventName args s =
     (case socket s of
        Some k \<Rightarrow>
          if connected k then
            (case socket_emit k of
               (None, k') \<Rightarrow>
                 (True, s\<lparr>socket := Some k', effects := effects s @ [SocketEmit eventName args]\<rparr>)
             | (Some error, k') \<Rightarrow>
                 (False,
                  handleError (as_Error error (''Emit event '' @ quoted eventName @ '' failed''))
                    (s\<lparr>socket := Some k', effects := effects s @ [SocketEmit eventName args]\<rparr>)))
          else if queueMessages (options s)
          then (False, s\<lparr>messageQueue := messageQueue s @ [(eventName, args)]\<rparr>)
          else (False,
                handleError
                  (ErrorObject (''Cannot emit event '' @ quoted eventName @ '', socket state is ''
                     @ status_string (status s))) s)
      | None \<Rightarrow>
          if queueMessages (options s)
          then (False, s\<lparr>messageQueue := messageQueue s @ [(eventName, args)]\<rparr>)
          else (False,
                handleError
                  (ErrorObject (''Cannot emit event '' @ quoted eventName @ '', socket state is ''
                     @ status_string (status s))) s))"

text \<open>
  The loop of \<^verbatim>\<open>processMessageQueue\<close>: \<^verbatim>\<open>shift()\<close> takes the first message, \<^verbatim>\<open>sendMessage\<close>
  sends it, and when that fails with the socket no longer connected the message is put
  back in front (\<^verbatim>\<open>unshift\<close>) and the loop stops. The loop goes on only after a
  \<^verbatim>\<open>sendMessage\<close> that left the queue as it was, so the queue gets shorter.
\<close>

function drain :: "'a WebSocketService \<Rightarrow> 'a WebSocketService" where
  "drain s =
     (case messageQueue s of
        [] \<Rightarrow> s
      | item # rest \<Rightarrow>
          (case sendMessage (fst item) (snd item) (s\<lparr>messageQueue := rest\<rparr>) of
             (sent, s1) \<Rightarrow>
               if \<not> sent \<and> \<not> socket_connected s1
               then s1\<lparr>messageQueue := item # messageQueue s1\<rparr>
               else drain s1))"
  by pat_completeness auto
definition processMessageQueue :: "'a WebSocketService \<Rightarrow> 'a WebSocketService" where
  "processMessageQueue s =
     (if queueMessages (options s) \<and> socket_connected s then drain s else s)"

text \<open>
  The handler that \<^verbatim>\<open>setupEventHandlers\<close> attaches for the \<^verbatim>\<open>'disconnect'\<close> event.
\<close>

definition on_disconnect :: "string \<Rightarrow> 'a WebSocketService \<Rightarrow> 'a WebSocketService" where
  "on_disconnect reason s =
     (let s1 = updateStatus CLOSED s;
          wasExplicit = (reason = ''io client disconnect'');
          s2 = (if \<not> wasExplicit \<and> reconnection (options s1) then s1
                else if wasExplicit then s1\<lparr>explicitDisconnect := True\<rparr> else s1)
      in case onCloseCallback s2 of
           Some cb \<Rightarrow> s2\<lparr>effects := effects s2 @ [OnClose cb reason]\<rparr>
         | None \<Rightarrow> s2)"

text \<open>
  \<^verbatim>\<open>disconnect(preventReconnect = true)\<close>. After \<^verbatim>\<open>socket.disconnect()\<close> the socket is
  neither connected nor connecting. When the socket was connected, the library raises
  \<^verbatim>\<open>'disconnect'\<close> with the reason \<^verbatim>\<open>'io client disconnect'\<close> before \<^verbatim>\<open>socket.disconnect()\<close>
  returns, so the handler runs inside the call.
\<close>

definition disconnect :: "bool \<Rightarrow> 'a WebSocketService \<Rightarrow> 'a WebSocketService" where
  "disconnect preventReconnect s =
     (let s1 = (if preventReconnect then s\<lparr>explicitDisconnect := True\<rparr> else s)
      in case socket s1 of
           Some k \<Rightarrow>
             if connected k \<or> connecting k then
               (let s2 = updateStatus CLOSING s1;
                    s3 = s2\<lparr>effects := effects s2 @ [SocketDisconnect],
                            socket := Some (socket_disconnect k)\<rparr>
                in if connected k then on_disconnect ''io client disconnect'' s3 else s3)
             else (if preventReconnect then s1\<lparr>explicitDisconnect := True\<rparr> else s1)
         | None \<Rightarrow>
             (let s2 = updateStatus CLOSED s1
              in if preventReconnect then s2\<lparr>explicitDisconnect := True\<rparr> else s2))"

definition cleanup :: "'a WebSocketService \<Rightarrow> 'a WebSocketService" where
  "cleanup s =
     (let s1 = disconnect True s;
          s2 = (case socket s1 of
                  Some k \<Rightarrow> s1\<lparr>effects := effects s1 @ [SocketRemoveAllListeners]\<rparr>
                | None \<Rightarrow> s1)
      in s2\<lparr>socket := None, onMessageCallback := None, onOpenCallback := None,
            onCloseCallback := None, onErrorCallback := None, onStatusChangeCallback := None,
            messageQueue := []\<rparr>)"

text \<open>
  \<^verbatim>\<open>handleAppStateChange\<close> calls \<^verbatim>\<open>this.connect()\<close> without awaiting it: what runs inside the
  handler is \<open>ws_connect None\<close>.
\<close>

definition handleAppStateChange ::
    "AppStateStatus \<Rightarrow> 'a WebSocketService \<Rightarrow> 'a WebSocketService" where
  "handleAppStateChange nextAppState s =
     (case socket s of
        Some k \<Rightarrow>
          if nextAppState = active then
            (if \<not> connected k \<and> \<not> explicitDisconnect s \<and> reconnection (options s)
             then ws_connect None s
             else s)
          else s
      | None \<Rightarrow> s)"

text \<open>
  The other handlers that \<^verbatim>\<open>setupEventHandlers\<close> attaches to the socket. They are closures
  over the service and act on its current fields.
\<close>

definition on_connect :: "'a WebSocketService \<Rightarrow> 'a WebSocketService" where
  "on_connect s =
     (let s1 = updateStatus OPEN s;
          s2 = processMessageQueue s1
      in case onOpenCallback s2 of
           Some cb \<Rightarrow> s2\<lparr>effects := effects s2 @ [OnOpen cb]\<rparr>
         | None \<Rightarrow> s2)"

definition on_connect_error :: "string \<Rightarrow> 'a WebSocketService \<Rightarrow> 'a WebSocketService" where
  "on_connect_error message s = handleError (ErrorObject message) (updateStatus RECONNECTING s)"

definition on_reconnect_attempt :: "nat \<Rightarrow> 'a WebSocketService \<Rightarrow> 'a WebSocketService" where
  "on_reconnect_attempt attempt s = updateStatus RECONNECTING s"

definition on_reconnect_failed :: "'a WebSocketService \<Rightarrow> 'a WebSocketService" where
  "on_reconnect_failed s = handleError (ErrorObject ''Reconnection failed'') (updateStatus CLOSED s)"

definition on_reconnect_error :: "string \<Rightarrow> 'a WebSocketService \<Rightarrow> 'a WebSocketService" where
  "on_reconnect_error message s = handleError (ErrorObject message) (updateStatus RECONNECTING s)"

definition on_error :: "string \<Rightarrow> 'a WebSocketService \<Rightarrow> 'a WebSocketService" where
  "on_error message s = handleError (ErrorObject message) s"

definition on_message :: "'a list \<Rightarrow> 'a WebSocketService \<Rightarrow> 'a WebSocketService" where
  "on_message args s =
     (case onMessageCallback s of
        Some cb \<Rightarrow> s\<lparr>effects := effects s @ [OnMessage cb ''message'' args]\<rparr>
      | None \<Rightarrow> s)"

text \<open>
  The \<^verbatim>\<open>onAny\<close> listener passes every incoming event outside its list of names to
  \<^verbatim>\<open>onMessageCallback\<close>; when that is \<^verbatim>\<open>null\<close> by then, the call throws inside the
  \<^verbatim>\<open>try\<close> and nothing happens.
\<close>

definition on_any :: "string \<Rightarrow> 'a list \<Rightarrow> 'a WebSocketService \<Rightarrow> 'a WebSocketService" where
  "on_any event args s =
     (if event \<in> set [''connect'', ''disconnect'', ''connect_error'', ''reconnect_attempt'',
                        ''reconnect_failed'', ''reconnect_error'', ''error'']
      then s
      else case onMessageCallback s of
             Some cb \<Rightarrow> s\<lparr>effects := effects s @ [OnMessage cb event args]\<rparr>
           | None \<Rightarrow> s)"

text \<open>
  An event that comes in on the socket of the service: the library calls the \<^verbatim>\<open>onAny\<close>
  listener of the socket, when it has one, and then the handler for the event's name,
  which the service has for \<^verbatim>\<open>'message'\<close>.
\<close>

definition incoming ::
    "string \<Rightarrow> 'a list \<Rightarrow> 'a WebSocketService \<Rightarrow> 'a WebSocketService" where
  "incoming event args s =
     (let s1 = (case socket s of
                  Some k \<Rightarrow> if anyListener k then on_any event args s else s
                | None \<Rightarrow> s)
      in if event = ''message'' then on_message args s1 else s1)"

text \<open>
  What can happen to a service: a call of one of its methods, the continuation of a
  suspended \<^verbatim>\<open>connect\<close>, an app-state change, an event of the socket (one of the library's
  own, or one that comes in from the server), or the library changing the \<^verbatim>\<open>connected\<close> and
  \<^verbatim>\<open>connecting\<close> properties of the socket.
\<close>

datatype 'a ws_event =
    Call_connect "string option"
  | Resume_connect nat "thrown + string" io_outcome
  | Call_disconnect bool
  | Call_sendMessage string "'a list"
  | Call_on string callback
  | Call_off string "callback option"
  | Call_setOnMessage callback
  | Call_setOnOpen callback
  | Call_setOnClose callback
  | Call_setOnError callback
  | Call_setOnStatusChange callback
  | Call_setAuthToken "AuthToken option"
  | Call_cleanup
  | AppStateChange AppStateStatus
  | Socket_flags bool bool
  | Socket_connect
  | Socket_disconnect string
  | Socket_connect_error string
  | Socket_reconnect_attempt nat
  | Socket_reconnect_failed
  | Socket_reconnect_error string
  | Socket_error string
  | Socket_incoming string "'a list"

fun ws_step :: "'a ws_event \<Rightarrow> 'a WebSocketService \<Rightarrow> 'a WebSocketService" where
  "ws_step (Call_connect url) s = ws_connect url s"
| "ws_step (Resume_connect i provided io) s = ws_connect_resume i provided io s"
| "ws_step (Call_disconnect preventReconnect) s = disconnect preventReconnect s"
| "ws_step (Call_sendMessage eventName args) s = snd (sendMessage eventName args s)"
| "ws_step (Call_on eventName cb) s = ws_on eventName cb s"
| "ws_step (Call_off eventName cb) s = ws_off eventName cb s"
| "ws_step (Call_setOnMessage cb) s = setOnMessage cb s"
| "ws_step (Call_setOnOpen cb) s = setOnOpen cb s"
| "ws_step (Call_setOnClose cb) s = setOnClose cb s"
| "ws_step (Call_setOnError cb) s = setOnError cb s"
| "ws_step (Call_setOnStatusChange cb) s = setOnStatusChange cb s"
| "ws_step (Call_setAuthToken token) s = setAuthToken token s"
| "ws_step Call_cleanup s = cleanup s"
| "ws_step (AppStateChange nextAppState) s = handleAppStateChange nextAppState s"
| "ws_step (Socket_flags c g) s =
     s\<lparr>socket := map_option (\<lambda>k. k\<lparr>connected := c, connecting := g\<rparr>) (socket s)\<rparr>"
| "ws_step Socket_connect s = on_connect s"
| "ws_step (Socket_disconnect reason) s = on_disconnect reason s"
| "ws_step (Socket_connect_error message) s = on_connect_error message s"
| "ws_step (Socket_reconnect_attempt attempt) s = on_reconnect_attempt attempt s"
| "ws_step Socket_reconnect_failed s = on_reconnect_failed s"
| "ws_step (Socket_reconnect_error message) s = on_reconnect_error message s"
| "ws_step (Socket_error message) s = on_error message s"
| "ws_step (Socket_incoming event args) s = incoming event args s"

fun ws_run :: "'a ws_event list \<Rightarrow> 'a WebSocketService \<Rightarrow> 'a WebSocketService" where
  "ws_run [] s = s"
| "ws_run (e # es) s = ws_run es (ws_step e s)"

text \<open>
  The constructor, with the merged options: a service without socket, status CLOSED.
\<close>

definition new_WebSocketService ::
    "string option \<Rightarrow> WebSocketServiceOptions \<Rightarrow> 'a WebSocketService" where
  "new_WebSocketService url opts =
     (let s0 = \<lparr>socket = None, connectionUrl = None, options = opts, status = CLOSED,
                explicitDisconnect = False, messageQueue = [], authToken = None,
                onMessageCallback = None, onOpenCallback = None, onCloseCallback = None,
                onErrorCallback = None, onStatusChangeCallback = None, pendingAuth = [],
                effects = []\<rparr>
      in if truthy url then
           (let s1 = s0\<lparr>connectionUrl := url\<rparr>
            in if autoConnect (options s1) then ws_connect url s1 else s1)
         else s0)"

section \<open>Termination of the queue loop\<close>

text \<open>
  The queue loop goes on only after a \<open>sendMessage\<close> that left the queue as it was, one
  message shorter than before the \<^verbatim>\<open>shift()\<close>.
\<close>

lemma sendMessage_queue_length:
  "sendMessage ev args s = (sent, s') \<Longrightarrow> sent \<or> socket_connected s' \<Longrightarrow>
   messageQueue s' = messageQueue s"
  by (auto simp: sendMessage_def socket_connected_def handleError_def
      split: option.splits if_splits prod.splits)

termination drain
proof (relation "measure (\<lambda>s. length (messageQueue s))")
  fix s :: "'a WebSocketService" and item rest sent s1
  assume q: "messageQueue s = item # rest"
    and r: "(sent, s1) = sendMessage (fst item) (snd item) (s\<lparr>messageQueue := rest\<rparr>)"
    and c: "\<not> (\<not> sent \<and> \<not> socket_connected s1)"
  from r have "sendMessage (fst item) (snd item) (s\<lparr>messageQueue := rest\<rparr>) = (sent, s1)"
    by simp
  from sendMessage_queue_length [OF this] c have "messageQueue s1 = rest" by auto
  with q show "(s1, s) \<in> measure (\<lambda>s. length (messageQueue s))" by simp
qed simp

declare drain.simps [simp del]

section \<open>Properties of TodoContext\<close>

lemma toggleTodo_length: "length (toggleTodo i ts) = length ts"
  by (simp add: toggleTodo_def)

lemma toggleTodo_nth:
  assumes "n < length ts"
  shows "toggleTodo i ts ! n =
           (if todo_id (ts ! n) = i then (ts ! n)\<lparr>completed := \<not> completed (ts ! n)\<rparr> else ts ! n)"
  using assms by (simp add: toggleTodo_def)

text \<open>
  C10. For every id, \<open>toggleTodo id\<close> keeps the length of the list and, position by position
  (so the order is kept), the id and the text of every todo; the todo at a position is
  returned as it was when its id differs from the argument, and has its completed flag
  negated when its id equals the argument.
\<close>

theorem toggleTodo_frame:
  "length (toggleTodo i ts) = length ts \<and>
   map todo_id (toggleTodo i ts) = map todo_id ts \<and>
   map todo_text (toggleTodo i ts) = map todo_text ts \<and>
   (\<forall>n < length ts.
      (todo_id (ts ! n) = i \<longrightarrow> completed (toggleTodo i ts ! n) = (\<not> completed (ts ! n))) \<and>
      (todo_id (ts ! n) \<noteq> i \<longrightarrow> toggleTodo i ts ! n = ts ! n))"
proof -
  have ids: "map todo_id (toggleTodo i ts) = map todo_id ts"
    by (simp add: toggleTodo_def)
  have texts: "map todo_text (toggleTodo i ts) = map todo_text ts"
    by (simp add: toggleTodo_def)
  have pos: "\<forall>n < length ts.
      (todo_id (ts ! n) = i \<longrightarrow> completed (toggleTodo i ts ! n) = (\<not> completed (ts ! n))) \<and>
      (todo_id (ts ! n) \<noteq> i \<longrightarrow> toggleTodo i ts ! n = ts ! n)"
    by (simp add: toggleTodo_nth)
  from toggleTodo_length ids texts pos show ?thesis by blast
qed

theorem toggleTodo_frame_witness:
  "(1::nat) < length [\<lparr>todo_id = ''a'', todo_text = ''Learn React Native'', completed = False\<rparr>,
                      \<lparr>todo_id = ''b'', todo_text = ''Build a Todo App'', completed = True\<rparr>] \<and>
   completed (toggleTodo ''b''
     [\<lparr>todo_id = ''a'', todo_text = ''Learn React Native'', completed = False\<rparr>,
      \<lparr>todo_id = ''b'', todo_text = ''Build a Todo App'', completed = True\<rparr>] ! 1) = False \<and>
   toggleTodo ''b''
     [\<lparr>todo_id = ''a'', todo_text = ''Learn React Native'', completed = False\<rparr>,
      \<lparr>todo_id = ''b'', todo_text = ''Build a Todo App'', completed = True\<rparr>] ! 0 =
     \<lparr>todo_id = ''a'', todo_text = ''Learn React Native'', completed = False\<rparr>"
proof -
  let ?ts = "[\<lparr>todo_id = ''a'', todo_text = ''Learn React Native'', completed = False\<rparr>,
              \<lparr>todo_id = ''b'', todo_text = ''Build a Todo App'', completed = True\<rparr>]"
  have h0: "(0::nat) < length ?ts" and h1: "(1::nat) < length ?ts" by simp_all
  have k0: "todo_id (?ts ! 0) \<noteq> ''b''" and k1: "todo_id (?ts ! 1) = ''b''" by simp_all
  from toggleTodo_frame [of "''b''" ?ts]
  have pos: "\<forall>n < length ?ts.
      (todo_id (?ts ! n) = ''b'' \<longrightarrow> completed (toggleTodo ''b'' ?ts ! n) = (\<not> completed (?ts ! n))) \<and>
      (todo_id (?ts ! n) \<noteq> ''b'' \<longrightarrow> toggleTodo ''b'' ?ts ! n = ?ts ! n)"
    by blast
  from pos h1 k1 have a: "completed (toggleTodo ''b'' ?ts ! 1) = (\<not> completed (?ts ! 1))"
    by blast
  from pos h0 k0 have b: "toggleTodo ''b'' ?ts ! 0 = ?ts ! 0"
    by blast
  from a b h1 show ?thesis by simp
qed

section \<open>Properties of PhonePeService\<close>

lemma openPhonePeApp_cases:
  "openPhonePeApp linking u =
     (case canOpenURL linking u of
        Inl e \<Rightarrow> (Inr False, [CanOpenURL u])
      | Inr supported \<Rightarrow>
          if supported then
            (case openURL linking u of
               Inl e \<Rightarrow> (Inr False, [CanOpenURL u, OpenURL u])
             | Inr x \<Rightarrow> (Inr True, [CanOpenURL u, OpenURL u]))
          else (Inr False, [CanOpenURL u]))"
  by (simp add: openPhonePeApp_def openPhonePeApp_try_def split: sum.splits)

text \<open>
  C8. \<open>openPhonePeApp\<close> resolves to true exactly when \<open>canOpenURL\<close> reports the URL as
  supported and the call of \<open>openURL\<close> on it then returns; \<open>openURL\<close> is called exactly
  when the URL is reported as supported; for an unsupported URL the result is false and
  \<open>canOpenURL\<close> is the only call made; when \<open>canOpenURL\<close> or \<open>openURL\<close> throws the result is
  false; and the promise never rejects.
\<close>

theorem openPhonePeApp_result:
  "(fst (openPhonePeApp linking u) = Inr True \<longleftrightarrow>
      canOpenURL linking u = Inr True \<and> openURL linking u = Inr ()) \<and>
   (OpenURL u \<in> set (snd (openPhonePeApp linking u)) \<longleftrightarrow> canOpenURL linking u = Inr True) \<and>
   (canOpenURL linking u = Inr False \<longrightarrow>
      openPhonePeApp linking u = (Inr False, [CanOpenURL u])) \<and>
   ((\<exists>e. canOpenURL linking u = Inl e) \<or>
    (canOpenURL linking u = Inr True \<and> (\<exists>e. openURL linking u = Inl e)) \<longrightarrow>
      fst (openPhonePeApp linking u) = Inr False) \<and>
   (\<forall>e. fst (openPhonePeApp linking u) \<noteq> Inl e)"
  by (auto simp: openPhonePeApp_cases split: sum.splits)

theorem openPhonePeApp_result_witness:
  "openPhonePeApp \<lparr>canOpenURL = (\<lambda>x. Inr False), openURL = (\<lambda>x. Inr ())\<rparr> ''phonepe://pay''
     = (Inr False, [CanOpenURL ''phonepe://pay'']) \<and>
   fst (openPhonePeApp \<lparr>canOpenURL = (\<lambda>x. Inr True), openURL = (\<lambda>x. Inl OtherValue)\<rparr>
     ''phonepe://pay'') = Inr False \<and>
   fst (openPhonePeApp \<lparr>canOpenURL = (\<lambda>x. Inr True), openURL = (\<lambda>x. Inr ())\<rparr>
     ''phonepe://pay'') = Inr True"
proof -
  let ?u = "''phonepe://pay''"
  let ?no = "\<lparr>canOpenURL = (\<lambda>x. Inr False), openURL = (\<lambda>x. Inr ())\<rparr>"
  let ?bad = "\<lparr>canOpenURL = (\<lambda>x. Inr True), openURL = (\<lambda>x. Inl OtherValue)\<rparr>"
  let ?ok = "\<lparr>canOpenURL = (\<lambda>x. Inr True), openURL = (\<lambda>x. Inr ())\<rparr>"
  have a: "canOpenURL ?no ?u = Inr False" by simp
  have b: "canOpenURL ?bad ?u = Inr True \<and> (\<exists>e. openURL ?bad ?u = Inl e)" by simp
  have c: "canOpenURL ?ok ?u = Inr True \<and> openURL ?ok ?u = Inr ()" by simp
  from a openPhonePeApp_result [of ?no ?u]
  have 1: "openPhonePeApp ?no ?u = (Inr False, [CanOpenURL ?u])" by blast
  from b openPhonePeApp_result [of ?bad ?u]
  have 2: "fst (openPhonePeApp ?bad ?u) = Inr False" by blast
  from c openPhonePeApp_result [of ?ok ?u]
  have 3: "fst (openPhonePeApp ?ok ?u) = Inr True" by blast
  from 1 2 3 show ?thesis by blast
qed

text \<open>
  C7. When the index drawn lies inside \<open>statuses\<close> (as \<open>Math.random() < 1\<close> makes it),
  \<open>checkPhonePeTransactionStatusOnServer\<close> resolves, for every transaction id, to one of
  SUCCESS, PENDING, FAILURE and UNKNOWN, and to UNKNOWN exactly when the status request
  in the \<open>try\<close> block throws.
\<close>

theorem checkPhonePeTransactionStatus_result:
  assumes "\<forall>k. run = Inr k \<longrightarrow> 0 \<le> k \<and> k < int (length statuses)"
  shows "\<exists>st. checkPhonePeTransactionStatusOnServer transactionId run = Inr (Some st) \<and>
              st \<in> {SUCCESS, PENDING, FAILURE, UNKNOWN} \<and>
              (st = UNKNOWN \<longleftrightarrow> (\<exists>e. run = Inl e))"
proof (cases run)
  case (Inl e)
  then show ?thesis by (simp add: checkPhonePeTransactionStatusOnServer_def)
next
  case (Inr k)
  with assms have "0 \<le> k" "k < 3" by (simp_all add: statuses_def)
  then have "k = 0 \<or> k = 1 \<or> k = 2" by arith
  with Inr show ?thesis
    by (auto simp: checkPhonePeTransactionStatusOnServer_def js_index_def statuses_def)
qed

theorem checkPhonePeTransactionStatus_result_witness:
  "(\<exists>st. checkPhonePeTransactionStatusOnServer ''T1'' (Inr 1) = Inr (Some st) \<and> st \<noteq> UNKNOWN) \<and>
   checkPhonePeTransactionStatusOnServer ''T1'' (Inl OtherValue) = Inr (Some UNKNOWN)"
proof -
  have h1: "\<forall>k. (Inr 1 :: thrown + int) = Inr k \<longrightarrow> 0 \<le> k \<and> k < int (length statuses)"
    by (simp add: statuses_def)
  have h2: "\<forall>k. (Inl OtherValue :: thrown + int) = Inr k \<longrightarrow> 0 \<le> k \<and> k < int (length statuses)"
    by simp
  from checkPhonePeTransactionStatus_result [OF h1, of "''T1''"]
  have a: "\<exists>st. checkPhonePeTransactionStatusOnServer ''T1'' (Inr 1) = Inr (Some st) \<and> st \<noteq> UNKNOWN"
    by auto
  from checkPhonePeTransactionStatus_result [OF h2, of "''T1''"]
  have b: "checkPhonePeTransactionStatusOnServer ''T1'' (Inl OtherValue) = Inr (Some UNKNOWN)"
    by auto
  from a b show ?thesis by blast
qed

section \<open>Properties of ServerSentEventsService\<close>

lemma update_absent: "k \<notin> fst ` set al \<Longrightarrow> AList.update k v al = al @ [(k, v)]"
  by (induction al) auto

lemma eventSources_close: "eventSources (close cid s) = AList.delete cid (eventSources s)"
  by (auto simp: close_def map_of_eq_None_iff split: option.splits)

lemma connect_source:
  "snd (connect cid url opts s) =
     addEventListener ''error'' (LogError cid)
       (addEventListener ''open'' (LogOpen cid) (new_EventSource url opts))"
  by (simp add: connect_def Let_def update_conv')

lemma eventSources_connect:
  "eventSources (fst (connect cid url opts s)) =
     AList.delete cid (eventSources s) @ [(cid, snd (connect cid url opts s))]"
  by (simp add: connect_def Let_def update_conv' eventSources_close update_absent delete_notin_dom)

lemma eventListeners_connect:
  "eventListeners (fst (connect cid url opts s)) = AList.update cid [] (eventListeners s)"
  by (simp add: connect_def Let_def close_def split: option.splits)

lemma connectionParams_connect:
  "connectionParams (fst (connect cid url opts s)) =
     AList.update cid (url, opts) (connectionParams s)"
  by (simp add: connect_def Let_def close_def split: option.splits)

lemma map_of_eventSources_connect:
  "map_of (eventSources (fst (connect cid url opts s))) c =
     (if c = cid then Some (snd (connect cid url opts s)) else map_of (eventSources s) c)"
  by (simp add: eventSources_connect map_add_def delete_conv split: option.splits)

lemma es_listeners_connect_source:
  "es_listeners (snd (connect cid url opts s)) = [(''open'', LogOpen cid), (''error'', LogError cid)]"
  by (simp add: connect_source addEventListener_def new_EventSource_def)

text \<open>
  C1. A connection \<open>''n''\<close> is opened, a listener for \<open>''message''\<close> is registered through
  \<open>addListener\<close> (it is attached to the EventSource and stored in the bookkeeping), and
  \<open>reconnect\<close> is called. The new EventSource carries the two logging listeners of
  \<open>connect\<close> only, and the bookkeeping for the connection is empty: the registered
  listener has not been re-attached.
\<close>

theorem reconnect_loses_listeners:
  "(let s1 = fst (connect ''n'' ''https://host/events'' [] new_ServerSentEventsService);
        s2 = addListener ''n'' ''message'' 1 s1;
        s3 = reconnect ''n'' s2
    in map_of (eventListeners s2) ''n'' = Some [(''message'', 1)] \<and>
       map_option es_listeners (map_of (eventSources s2) ''n'') =
         Some [(''open'', LogOpen ''n''), (''error'', LogError ''n''), (''message'', UserListener 1)] \<and>
       map_option es_listeners (map_of (eventSources s3) ''n'') =
         Some [(''open'', LogOpen ''n''), (''error'', LogError ''n'')] \<and>
       map_of (eventListeners s3) ''n'' = Some [])"
  by (simp add: Let_def connect_def close_def addListener_def reconnect_def
      new_ServerSentEventsService_def new_EventSource_def addEventListener_def es_close_def)

lemma delete_filter: "AList.delete k al = filter (\<lambda>entry. fst entry \<noteq> k) al"
  by (induction al) auto

lemma getConnectionState_close_other:
  "c \<noteq> cid \<Longrightarrow> getConnectionState c (close cid s) = getConnectionState c s"
  by (simp add: getConnectionState_def eventSources_close delete_conv)

lemma reconnect_after_close:
  assumes "map_of (connectionParams s) cid = Some (url, opts)"
  shows "map_of (eventSources (reconnect cid (close cid s))) cid =
           Some (addEventListener ''error'' (LogError cid)
                  (addEventListener ''open'' (LogOpen cid) (new_EventSource url opts)))"
proof -
  have "connectionParams (close cid s) = connectionParams s"
    by (simp add: close_def split: option.splits)
  with assms have "reconnect cid (close cid s) = fst (connect cid url opts (close cid s))"
    by (simp add: reconnect_def)
  then show ?thesis
    by (simp add: map_of_eventSources_connect connect_source)
qed

text \<open>
  C9. After \<open>close id\<close> no EventSource is tracked for \<open>id\<close> and \<open>getConnectionState id\<close> is
  null. The stored connection parameters and the listener bookkeeping are the same maps
  as before, the other tracked sources keep their entries and their order, and every other
  id has the connection state it had. When parameters are stored for \<open>id\<close>,
  \<open>reconnect id\<close> after \<open>close id\<close> tracks a new EventSource for the stored URL and
  options, in state \<open>connecting\<close>.
\<close>

theorem close_frame:
  "map_of (eventSources (close cid s)) cid = None \<and>
   getConnectionState cid (close cid s) = None \<and>
   connectionParams (close cid s) = connectionParams s \<and>
   eventListeners (close cid s) = eventListeners s \<and>
   eventSources (close cid s) = filter (\<lambda>entry. fst entry \<noteq> cid) (eventSources s) \<and>
   (\<forall>c. c \<noteq> cid \<longrightarrow>
      map_of (eventSources (close cid s)) c = map_of (eventSources s) c \<and>
      getConnectionState c (close cid s) = getConnectionState c s) \<and>
   (\<forall>url opts. map_of (connectionParams s) cid = Some (url, opts) \<longrightarrow>
      map_option es_url (map_of (eventSources (reconnect cid (close cid s))) cid) = Some url \<and>
      map_option es_options (map_of (eventSources (reconnect cid (close cid s))) cid) = Some opts \<and>
      getConnectionState cid (reconnect cid (close cid s)) = Some ''connecting'')"
proof -
  have gone: "map_of (eventSources (close cid s)) cid = None"
    by (simp add: eventSources_close delete_conv)
  then have state: "getConnectionState cid (close cid s) = None"
    by (simp add: getConnectionState_def)
  have params: "connectionParams (close cid s) = connectionParams s"
    and listeners: "eventListeners (close cid s) = eventListeners s"
    by (simp_all add: close_def split: option.splits)
  have sources: "eventSources (close cid s) = filter (\<lambda>entry. fst entry \<noteq> cid) (eventSources s)"
    by (simp add: eventSources_close delete_filter)
  have others: "\<forall>c. c \<noteq> cid \<longrightarrow>
      map_of (eventSources (close cid s)) c = map_of (eventSources s) c \<and>
      getConnectionState c (close cid s) = getConnectionState c s"
    by (simp add: getConnectionState_close_other eventSources_close delete_conv)
  have again: "\<forall>url opts. map_of (connectionParams s) cid = Some (url, opts) \<longrightarrow>
      map_option es_url (map_of (eventSources (reconnect cid (close cid s))) cid) = Some url \<and>
      map_option es_options (map_of (eventSources (reconnect cid (close cid s))) cid) = Some opts \<and>
      getConnectionState cid (reconnect cid (close cid s)) = Some ''connecting''"
    by (simp add: reconnect_after_close getConnectionState_def getConnectionStateString_def
        addEventListener_def new_EventSource_def readyState_def EventSource_CONNECTING_def)
  from gone state params listeners sources others again show ?thesis by blast
qed

theorem close_frame_witness:
  "(let s = addListener ''n'' ''message'' 1
              (fst (connect ''n'' ''u'' []
                 (fst (connect ''m'' ''v'' [] new_ServerSentEventsService))))
    in ''m'' \<noteq> ''n'' \<and> map_of (connectionParams s) ''n'' = Some (''u'', []) \<and>
       getConnectionState ''n'' s = Some ''connecting'' \<and>
       getConnectionState ''n'' (close ''n'' s) = None \<and>
       getConnectionState ''m'' (close ''n'' s) = Some ''connecting'' \<and>
       getConnectionState ''n'' (reconnect ''n'' (close ''n'' s)) = Some ''connecting'')"
proof -
  define s where "s = addListener ''n'' ''message'' 1
              (fst (connect ''n'' ''u'' []
                 (fst (connect ''m'' ''v'' [] new_ServerSentEventsService))))"
  have val: "s = \<lparr>eventSources =
      [(''m'', \<lparr>es_url = ''v'', es_options = [], es_status = 0,
                es_listeners = [(''open'', LogOpen ''m''), (''error'', LogError ''m'')]\<rparr>),
       (''n'', \<lparr>es_url = ''u'', es_options = [], es_status = 0,
                es_listeners = [(''open'', LogOpen ''n''), (''error'', LogError ''n''),
                                (''message'', UserListener 1)]\<rparr>)],
      eventListeners = [(''m'', []), (''n'', [(''message'', 1)])],
      connectionParams = [(''m'', (''v'', [])), (''n'', (''u'', []))],
      closedSources = []\<rparr>"
    by (simp add: s_def Let_def connect_def close_def addListener_def
        new_ServerSentEventsService_def new_EventSource_def addEventListener_def)
  have ne: "''m'' \<noteq> ''n''" by simp
  have p: "map_of (connectionParams s) ''n'' = Some (''u'', [])" by (simp add: val)
  have before: "getConnectionState ''n'' s = Some ''connecting''"
    and other: "getConnectionState ''m'' s = Some ''connecting''"
    by (simp_all add: val getConnectionState_def getConnectionStateString_def
        readyState_def EventSource_CONNECTING_def)
  note f = close_frame [of "''n''" s]
  from f have 1: "getConnectionState ''n'' (close ''n'' s) = None"
    by (rule conjunct2 [THEN conjunct1])
  from f have others: "\<forall>c. c \<noteq> ''n'' \<longrightarrow>
      map_of (eventSources (close ''n'' s)) c = map_of (eventSources s) c \<and>
      getConnectionState c (close ''n'' s) = getConnectionState c s"
    by (elim conjE)
  from others ne other have 2: "getConnectionState ''m'' (close ''n'' s) = Some ''connecting''"
    by simp
  from f have again: "\<forall>url opts. map_of (connectionParams s) ''n'' = Some (url, opts) \<longrightarrow>
      map_option es_url (map_of (eventSources (reconnect ''n'' (close ''n'' s))) ''n'') = Some url \<and>
      map_option es_options (map_of (eventSources (reconnect ''n'' (close ''n'' s))) ''n'') = Some opts \<and>
      getConnectionState ''n'' (reconnect ''n'' (close ''n'' s)) = Some ''connecting''"
    by (elim conjE)
  from again p have 3: "getConnectionState ''n'' (reconnect ''n'' (close ''n'' s)) = Some ''connecting''"
    by simp
  show ?thesis unfolding Let_def s_def [symmetric]
    using ne p before 1 2 3 by (intro conjI)
qed

text \<open>
  A \<^verbatim>\<open>Map\<close> holds one entry per key: the association list that stands for
  \<^verbatim>\<open>eventSources\<close> has distinct keys, and \<open>connect\<close> keeps them distinct.
\<close>

lemma distinct_eventSources_connect:
  "distinct (map fst (eventSources s)) \<Longrightarrow>
   distinct (map fst (eventSources (fst (connect cid url opts s))))"
  by (simp add: eventSources_connect delete_keys distinct_removeAll)

lemma entry_at_distinct:
  assumes d: "distinct (map fst al)" and k: "k < length al" and e: "al ! k = (cid, es)"
  shows "cid \<notin> fst ` set (take k al)"
    and "cid \<notin> fst ` set (drop (Suc k) al)"
    and "AList.delete cid al = take k al @ drop (Suc k) al"
    and "map_of al cid = Some es"
proof -
  from k e have split: "al = take k al @ (cid, es) # drop (Suc k) al"
    by (metis id_take_nth_drop)
  from d have "distinct (map fst (take k al @ (cid, es) # drop (Suc k) al))"
    using split by simp
  then show a: "cid \<notin> fst ` set (take k al)" and b: "cid \<notin> fst ` set (drop (Suc k) al)"
    by auto
  have "filter (\<lambda>entry. fst entry \<noteq> cid) (take k al) = take k al"
    and "filter (\<lambda>entry. fst entry \<noteq> cid) (drop (Suc k) al) = drop (Suc k) al"
    using a b by (force intro: filter_True)+
  then have "AList.delete cid (take k al @ (cid, es) # drop (Suc k) al) = take k al @ drop (Suc k) al"
    by (simp add: delete_filter)
  with split show "AList.delete cid al = take k al @ drop (Suc k) al" by simp
  from a have "map_of (take k al) cid = None"
    by (simp add: map_of_eq_None_iff)
  then have "map_of (take k al @ (cid, es) # drop (Suc k) al) cid = Some es"
    by (simp add: map_add_def)
  with split show "map_of al cid = Some es" by simp
qed

lemma eventSources_connect_at:
  assumes d: "distinct (map fst (eventSources s))" and k: "k < length (eventSources s)"
    and e: "eventSources s ! k = (cid, es)"
  shows "\<exists>j. k \<le> j \<and> j < length (eventSources (fst (connect cid url opts s))) \<and>
             fst (eventSources (fst (connect cid url opts s)) ! j) = cid"
proof -
  let ?xs = "AList.delete cid (eventSources s)"
  from entry_at_distinct(3) [OF d k e] k have len: "k \<le> length ?xs" by simp
  have "eventSources (fst (connect cid url opts s)) ! length ?xs = (cid, snd (connect cid url opts s))"
    by (simp add: eventSources_connect)
  with len show ?thesis by (intro exI [of _ "length ?xs"]) (simp add: eventSources_connect)
qed

text \<open>
  The test \<^verbatim>\<open>eventSource.readyState === EventSource.CLOSED\<close> compares \<^verbatim>\<open>undefined\<close> with
  \<^verbatim>\<open>undefined\<close> and holds of every tracked source. The loop therefore calls \<open>connect\<close> for
  every entry that has stored parameters, and then meets the entry that \<open>connect\<close> has put
  at the end of the map: if the loop returns, no entry from the iterator's position on has
  stored parameters.
\<close>

lemma reconnect_loop_returns_only_without_params:
  assumes "reconnect_loop k s = Some t"
  shows "distinct (map fst (eventSources s)) \<longrightarrow>
         (\<forall>j. k \<le> j \<and> j < length (eventSources s) \<longrightarrow>
              map_of (connectionParams s) (fst (eventSources s ! j)) = None)"
  using assms
proof (induction k s t rule: reconnect_loop.raw_induct [rotated, consumes 1])
  case (1 loop k s t)
  show ?case
  proof (intro impI allI)
    fix j
    assume d: "distinct (map fst (eventSources s))"
      and j: "k \<le> j \<and> j < length (eventSources s)"
    then have k: "k < length (eventSources s)" by simp
    obtain cid es where e: "eventSources s ! k = (cid, es)" by (cases "eventSources s ! k")
    show "map_of (connectionParams s) (fst (eventSources s ! j)) = None"
    proof (cases "map_of (connectionParams s) cid")
      case None
      with "1"(2) k e have "loop (Suc k) s = Some t"
        by (simp add: readyState_def EventSource_CLOSED_def)
      from "1"(1) [OF this] d
      have "\<forall>i. Suc k \<le> i \<and> i < length (eventSources s) \<longrightarrow>
                map_of (connectionParams s) (fst (eventSources s ! i)) = None"
        by simp
      with None e j show ?thesis by (cases "j = k") auto
    next
      case (Some p)
      obtain url opts where p: "p = (url, opts)" by (cases p)
      let ?s' = "fst (connect cid url opts s)"
      from "1"(2) k e Some p have "loop k ?s' = Some t"
        by (simp add: readyState_def EventSource_CLOSED_def)
      from "1"(1) [OF this] distinct_eventSources_connect [OF d]
      have none: "\<forall>i. k \<le> i \<and> i < length (eventSources ?s') \<longrightarrow>
                map_of (connectionParams ?s') (fst (eventSources ?s' ! i)) = None"
        by simp
      from eventSources_connect_at [OF d k e] obtain i
        where i: "k \<le> i \<and> i < length (eventSources ?s')" "fst (eventSources ?s' ! i) = cid"
        by blast
      with none have "map_of (connectionParams ?s') cid = None" by auto
      then show ?thesis by (simp add: connectionParams_connect update_conv')
    qed
  qed
qed

lemma reconnect_loop_never_returns:
  assumes "distinct (map fst (eventSources s))"
    and "k \<le> j" and "j < length (eventSources s)"
    and "map_of (connectionParams s) (fst (eventSources s ! j)) \<noteq> None"
  shows "reconnect_loop k s = None"
proof (cases "reconnect_loop k s")
  case None
  then show ?thesis .
next
  case (Some t)
  from reconnect_loop_returns_only_without_params [OF Some, THEN mp, OF assms(1)]
  have "k \<le> j \<and> j < length (eventSources s) \<longrightarrow>
          map_of (connectionParams s) (fst (eventSources s ! j)) = None"
    by (rule spec)
  with assms(2,3) have "map_of (connectionParams s) (fst (eventSources s ! j)) = None"
    by simp
  with assms(4) show ?thesis by simp
qed

lemma reconnect_loop_returns:
  "\<forall>j. k \<le> j \<and> j < length (eventSources s) \<longrightarrow>
        map_of (connectionParams s) (fst (eventSources s ! j)) = None \<Longrightarrow>
   reconnect_loop k s = Some s"
proof (induction "length (eventSources s) - k" arbitrary: k)
  case 0
  then show ?case by (simp add: reconnect_loop.simps [of k s])
next
  case (Suc n)
  then have k: "k < length (eventSources s)" by simp
  obtain cid es where e: "eventSources s ! k = (cid, es)" by (cases "eventSources s ! k")
  from Suc.prems k e have none: "map_of (connectionParams s) cid = None" by force
  have "reconnect_loop (Suc k) s = Some s"
    using Suc.hyps(2) Suc.prems by (intro Suc.hyps(1)) auto
  with k e none show ?case by (simp add: reconnect_loop.simps [of k s])
qed

text \<open>
  C5. One connection \<open>''n''\<close> is opened; its source is tracked with status CONNECTING (not
  CLOSED) and its parameters are stored. The app-state callback for \<open>active\<close> and the network
  callback for a connected and reachable network then do not return: the loop of
  \<open>reconnectAllIfNeeded\<close> calls \<open>connect\<close> for the connection, finds the re-inserted entry
  and calls \<open>connect\<close> for it again, without end.
\<close>

theorem reconnectAllIfNeeded_never_returns:
  "(let s = fst (connect ''n'' ''https://host/events'' [] new_ServerSentEventsService)
    in map_option es_status (map_of (eventSources s) ''n'') = Some 0 \<and>
       map_of (connectionParams s) ''n'' = Some (''https://host/events'', []) \<and>
       sse_appStateChange active s = None \<and>
       sse_netInfoChange \<lparr>isConnected = Some True, isInternetReachable = Some True\<rparr> s = None)"
proof -
  define s where "s = fst (connect ''n'' ''https://host/events'' [] new_ServerSentEventsService)"
  have val: "s = \<lparr>eventSources =
      [(''n'', \<lparr>es_url = ''https://host/events'', es_options = [], es_status = 0,
                es_listeners = [(''open'', LogOpen ''n''), (''error'', LogError ''n'')]\<rparr>)],
      eventListeners = [(''n'', [])],
      connectionParams = [(''n'', (''https://host/events'', []))],
      closedSources = []\<rparr>"
    by (simp add: s_def Let_def connect_def close_def new_ServerSentEventsService_def
        new_EventSource_def addEventListener_def)
  have "reconnect_loop 0 s = None"
    by (rule reconnect_loop_never_returns [where j = 0]) (simp_all add: val)
  then have "sse_appStateChange active s = None"
    and "sse_netInfoChange \<lparr>isConnected = Some True, isInternetReachable = Some True\<rparr> s = None"
    by (simp_all add: sse_appStateChange_def sse_netInfoChange_def reconnectAllIfNeeded_def)
  moreover have "map_option es_status (map_of (eventSources s) ''n'') = Some 0"
    and "map_of (connectionParams s) ''n'' = Some (''https://host/events'', [])"
    by (simp_all add: val)
  ultimately show ?thesis unfolding Let_def s_def [symmetric] by (intro conjI)
qed

section \<open>Properties of WebSocketService\<close>

lemma truthy_simps: "truthy None = False" "truthy (Some x) = (x \<noteq> [])"
  by (simp_all add: truthy_def)

lemma updateStatus_same: "updateStatus (status s) s = s"
  by (simp add: updateStatus_def)

lemma updateStatus_fields:
  "socket (updateStatus st s) = socket s"
  "connectionUrl (updateStatus st s) = connectionUrl s"
  "options (updateStatus st s) = options s"
  "explicitDisconnect (updateStatus st s) = explicitDisconnect s"
  "messageQueue (updateStatus st s) = messageQueue s"
  "onOpenCallback (updateStatus st s) = onOpenCallback s"
  "onStatusChangeCallback (updateStatus st s) = onStatusChangeCallback s"
  "pendingAuth (updateStatus st s) = pendingAuth s"
  "awaitingAuth (updateStatus st s) = awaitingAuth s"
  "status (updateStatus st s) = st"
  by (auto simp: updateStatus_def awaitingAuth_def Let_def split: option.splits)

lemma remdups_adj_head: "remdups_adj (x # xs) = x # tl (remdups_adj (x # xs))"
  by (cases xs) auto

lemma updateStatus_sequence:
  "onStatusChangeCallback s = Some cb \<Longrightarrow>
   effects (fold updateStatus sts s) =
     effects s @ map (OnStatusChange cb) (tl (remdups_adj (status s # sts)))"
proof (induction sts arbitrary: s)
  case Nil
  then show ?case by simp
next
  case (Cons st sts)
  show ?case
  proof (cases "st = status s")
    case True
    then have "fold updateStatus (st # sts) s = fold updateStatus sts s"
      by (simp add: updateStatus_same)
    with Cons True show ?thesis by simp
  next
    case False
    let ?s' = "updateStatus st s"
    from False Cons.prems have e: "effects ?s' = effects s @ [OnStatusChange cb st]"
      by (simp add: updateStatus_def)
    have cb: "onStatusChangeCallback ?s' = Some cb"
      using Cons.prems by (simp add: updateStatus_fields)
    have step: "effects (fold updateStatus sts ?s') =
            effects ?s' @ map (OnStatusChange cb) (tl (remdups_adj (st # sts)))"
      using Cons.IH [OF cb] by (simp add: updateStatus_fields)
    have h: "map (OnStatusChange cb) (remdups_adj (st # sts)) =
               OnStatusChange cb st # map (OnStatusChange cb) (tl (remdups_adj (st # sts)))"
      by (metis remdups_adj_head list.map(2))
    show ?thesis using False [symmetric] by (simp add: step e h)
  qed
qed

text \<open>
  C2. \<open>setOnStatusChange\<close> stores the callback and calls it once, inside the call, with
  the current status, which it leaves as it is. From then on, whatever sequence of
  statuses \<open>updateStatus\<close> is called with, the callback is called once for each status in
  the sequence that differs from the one held before it, with that status, in order, and
  is not called otherwise. \<open>updateStatus\<close> with the status already held returns the
  service unchanged.
\<close>

theorem status_callback_once_per_change:
  "onStatusChangeCallback (setOnStatusChange cb s) = Some cb \<and>
   status (setOnStatusChange cb s) = status s \<and>
   effects (setOnStatusChange cb s) = effects s @ [OnStatusChange cb (status s)] \<and>
   effects (fold updateStatus sts (setOnStatusChange cb s)) =
     effects s @ [OnStatusChange cb (status s)] @
       map (OnStatusChange cb) (tl (remdups_adj (status s # sts))) \<and>
   updateStatus (status t) t = t"
proof -
  have reg: "onStatusChangeCallback (setOnStatusChange cb s) = Some cb"
    and st: "status (setOnStatusChange cb s) = status s"
    and eff: "effects (setOnStatusChange cb s) = effects s @ [OnStatusChange cb (status s)]"
    by (simp_all add: setOnStatusChange_def Let_def)
  from updateStatus_sequence [OF reg, of sts]
  have "effects (fold updateStatus sts (setOnStatusChange cb s)) =
     effects s @ [OnStatusChange cb (status s)] @
       map (OnStatusChange cb) (tl (remdups_adj (status s # sts)))"
    by (simp add: st eff)
  with reg st eff updateStatus_same [of t] show ?thesis by simp
qed

lemma ws_connect_connected:
  assumes "socket s = Some k" and "connected k"
  shows "ws_connect url s =
           (if truthy url then s\<lparr>connectionUrl := url\<rparr>
            else if truthy (connectionUrl s) then s
            else handleError (ErrorObject ''Connection URL not provided'') s)"
  using assms by (simp add: ws_connect_def Let_def socket_connected_def)

text \<open>
  C6. On a service whose socket is connected, \<open>connect\<close> returns before it reaches the
  \<open>await\<close>: the socket stays the same object in the same state, the status, the explicit
  disconnect flag and the queue are unchanged, no continuation is left pending, and the
  only effect the call can have is one call of the error callback, which happens only
  when neither the argument nor the service holds a URL. No socket is created or
  disconnected and the status callback is not called. With a URL at hand the effects
  are unchanged, and calling \<open>connect\<close> a second time changes nothing more.
\<close>

theorem connect_when_connected:
  assumes "socket s = Some k" and "connected k"
  shows "socket (ws_connect url s) = Some k \<and>
         status (ws_connect url s) = status s \<and>
         explicitDisconnect (ws_connect url s) = explicitDisconnect s \<and>
         messageQueue (ws_connect url s) = messageQueue s \<and>
         awaitingAuth (ws_connect url s) = awaitingAuth s \<and>
         effects (ws_connect url s) =
           effects s @
             (if truthy url \<or> truthy (connectionUrl s) then []
              else case onErrorCallback s of
                     Some cb \<Rightarrow> [OnError cb (ErrorObject ''Connection URL not provided'')]
                   | None \<Rightarrow> []) \<and>
         (truthy url \<or> truthy (connectionUrl s) \<longrightarrow>
            ws_connect url (ws_connect url s) = ws_connect url s)"
proof -
  note c = ws_connect_connected [OF assms, of url]
  have fields: "socket (ws_connect url s) = Some k \<and>
         status (ws_connect url s) = status s \<and>
         explicitDisconnect (ws_connect url s) = explicitDisconnect s \<and>
         messageQueue (ws_connect url s) = messageQueue s \<and>
         awaitingAuth (ws_connect url s) = awaitingAuth s"
    using assms(1) by (simp add: c handleError_def awaitingAuth_def split: option.splits)
  have eff: "effects (ws_connect url s) =
           effects s @
             (if truthy url \<or> truthy (connectionUrl s) then []
              else case onErrorCallback s of
                     Some cb \<Rightarrow> [OnError cb (ErrorObject ''Connection URL not provided'')]
                   | None \<Rightarrow> [])"
    by (simp add: c handleError_def split: option.splits)
  have idem: "truthy url \<or> truthy (connectionUrl s) \<longrightarrow>
            ws_connect url (ws_connect url s) = ws_connect url s"
  proof
    assume u: "truthy url \<or> truthy (connectionUrl s)"
    from fields have k': "socket (ws_connect url s) = Some k" by simp
    show "ws_connect url (ws_connect url s) = ws_connect url s"
      unfolding ws_connect_connected [OF k' assms(2), of url]
      using u by (auto simp: c)
  qed
  from fields eff idem show ?thesis by simp
qed

theorem connect_when_connected_witness:
  "(let k = \<lparr>connected = True, connecting = False, anyListener = False, emit_script = []\<rparr>;
        s = (new_WebSocketService (Some ''wss://host'') DEFAULT_OPTIONS :: nat WebSocketService)
              \<lparr>socket := Some k, status := OPEN, onStatusChangeCallback := Some 1\<rparr>
    in socket s = Some k \<and> connected k \<and> truthy (connectionUrl s) \<and>
       ws_connect None s = s \<and> ws_connect None (ws_connect None s) = s)"
proof -
  define k where "k = \<lparr>connected = True, connecting = False, anyListener = False, emit_script = []\<rparr>"
  define s where "s = (new_WebSocketService (Some ''wss://host'') DEFAULT_OPTIONS :: nat WebSocketService)
              \<lparr>socket := Some k, status := OPEN, onStatusChangeCallback := Some 1\<rparr>"
  have sk: "socket s = Some k" by (simp add: s_def)
  have ck: "connected k" by (simp add: k_def)
  have u: "truthy (connectionUrl s)"
    by (simp add: s_def new_WebSocketService_def DEFAULT_OPTIONS_def truthy_simps Let_def)
  note f = connect_when_connected [OF sk ck, of None]
  from f u have idem: "ws_connect None (ws_connect None s) = ws_connect None s" by simp
  have same: "ws_connect None s = s"
  proof (rule WebSocketService.equality)
    from f show "socket (ws_connect None s) = socket s" by (simp add: sk)
    from f show "status (ws_connect None s) = status s" by simp
    from f show "explicitDisconnect (ws_connect None s) = explicitDisconnect s" by simp
    from f show "messageQueue (ws_connect None s) = messageQueue s" by simp
    from f u show "effects (ws_connect None s) = effects s" by simp
  qed (simp_all add: ws_connect_connected [OF sk ck] u truthy_simps)
  from sk ck u same idem show ?thesis unfolding Let_def k_def [symmetric] s_def [symmetric]
    by simp
qed

lemma handleError_fields:
  "socket (handleError e s) = socket s"
  "options (handleError e s) = options s"
  "status (handleError e s) = status s"
  "explicitDisconnect (handleError e s) = explicitDisconnect s"
  "messageQueue (handleError e s) = messageQueue s"
  "onOpenCallback (handleError e s) = onOpenCallback s"
  "pendingAuth (handleError e s) = pendingAuth s"
  "awaitingAuth (handleError e s) = awaitingAuth s"
  by (auto simp: handleError_def awaitingAuth_def split: option.splits)

lemma explicitDisconnect_sendMessage:
  "explicitDisconnect (snd (sendMessage ev args s)) = explicitDisconnect s"
  by (auto simp: sendMessage_def handleError_fields split: option.splits prod.splits)

lemma explicitDisconnect_drain: "explicitDisconnect (drain s) = explicitDisconnect s"
proof (induction s rule: drain.induct)
  case (1 s)
  show ?case
  proof (cases "messageQueue s")
    case Nil
    then show ?thesis by (simp add: drain.simps [of s])
  next
    case (Cons item rest)
    obtain sent s1 where r: "sendMessage (fst item) (snd item) (s\<lparr>messageQueue := rest\<rparr>) = (sent, s1)"
      by (cases "sendMessage (fst item) (snd item) (s\<lparr>messageQueue := rest\<rparr>)")
    from explicitDisconnect_sendMessage [of "fst item" "snd item" "s\<lparr>messageQueue := rest\<rparr>"] r
    have e1: "explicitDisconnect s1 = explicitDisconnect s" by simp
    show ?thesis
    proof (cases "\<not> sent \<and> \<not> socket_connected s1")
      case True
      with Cons r e1 show ?thesis by (simp add: drain.simps [of s])
    next
      case False
      with Cons r have "drain s = drain s1" by (auto simp: drain.simps [of s])
      with "1.IH" [OF Cons r [symmetric] False] e1 show ?thesis by simp
    qed
  qed
qed

lemma explicitDisconnect_disconnect:
  "explicitDisconnect s \<or> p \<Longrightarrow> explicitDisconnect (disconnect p s)"
  by (auto simp: disconnect_def on_disconnect_def Let_def updateStatus_fields
      split: option.splits)

lemma handleAppStateChange_explicit:
  "explicitDisconnect s \<Longrightarrow> handleAppStateChange a s = s"
  by (simp add: handleAppStateChange_def split: option.splits)

lemma explicitDisconnect_step:
  assumes "explicitDisconnect s" and "\<forall>url. e \<noteq> Call_connect url"
  shows "explicitDisconnect (ws_step e s)"
proof (cases e)
  case (Call_connect url)
  with assms(2) show ?thesis by simp
next
  case (Resume_connect i provided io)
  with assms(1) show ?thesis
    by (auto simp: ws_connect_resume_def getAuthData_def setupEventHandlers_def Let_def
        updateStatus_fields handleError_fields
        split: option.splits prod.splits io_outcome.splits AuthToken.splits sum.splits)
next
  case (Call_disconnect p)
  with assms(1) show ?thesis by (simp add: explicitDisconnect_disconnect)
next
  case (Call_sendMessage ev args)
  with assms(1) show ?thesis by (simp add: explicitDisconnect_sendMessage)
next
  case Call_cleanup
  with assms(1) show ?thesis
    by (simp add: cleanup_def Let_def explicitDisconnect_disconnect split: option.splits)
next
  case (AppStateChange a)
  with assms(1) show ?thesis by (simp add: handleAppStateChange_explicit)
next
  case Socket_connect
  with assms(1) show ?thesis
    by (simp add: on_connect_def Let_def processMessageQueue_def explicitDisconnect_drain
        updateStatus_fields split: option.splits)
next
  case (Socket_disconnect reason)
  with assms(1) show ?thesis
    by (simp add: on_disconnect_def Let_def updateStatus_fields split: option.splits)
qed (use assms(1) in \<open>simp_all add: ws_on_def ws_off_def setOnMessage_def setOnOpen_def setOnClose_def setOnError_def
      setOnStatusChange_def setAuthToken_def on_connect_error_def on_reconnect_attempt_def
      on_reconnect_failed_def on_reconnect_error_def on_error_def on_message_def on_any_def
      incoming_def Let_def updateStatus_fields handleError_fields split: option.splits\<close>)

lemma explicitDisconnect_run:
  "explicitDisconnect s \<Longrightarrow> \<forall>url. Call_connect url \<notin> set evs \<Longrightarrow>
   explicitDisconnect (ws_run evs s)"
proof (induction evs arbitrary: s)
  case Nil
  then show ?case by simp
next
  case (Cons e evs)
  from Cons.prems have "explicitDisconnect (ws_step e s)"
    by (intro explicitDisconnect_step) auto
  moreover from Cons.prems(2) have "\<forall>url. Call_connect url \<notin> set evs" by simp
  ultimately show ?case using Cons.IH by simp
qed

text \<open>
  C3. \<open>disconnect\<close> with \<open>preventReconnect = true\<close> sets the explicit disconnect flag.
  Whatever happens afterwards short of a new call of \<open>connect\<close> by the application
  (method calls, socket events, app-state changes, the continuation of an earlier
  \<open>connect\<close>), the flag stays set, and an app-state change to \<open>active\<close> then returns the
  service as it is: it does not call \<open>connect\<close>. Conversely, with a socket that is not
  connected, the flag not set and the reconnection option on, the app-state change to
  \<open>active\<close> is the call \<open>connect()\<close>; when a URL is stored and the socket is not connecting
  either, that call drops the socket, sets the status to CONNECTING and suspends at the
  \<open>await\<close> from which the new socket is created.
\<close>

theorem appState_active_reconnects_unless_explicit:
  "explicitDisconnect (disconnect True s) \<and>
   ((\<forall>url. Call_connect url \<notin> set evs) \<longrightarrow>
      explicitDisconnect (ws_run evs (disconnect True s)) \<and>
      handleAppStateChange active (ws_run evs (disconnect True s)) =
        ws_run evs (disconnect True s)) \<and>
   (socket s = Some k \<and> \<not> connected k \<and> \<not> explicitDisconnect s \<and> reconnection (options s) \<longrightarrow>
      handleAppStateChange active s = ws_connect None s \<and>
      (truthy (connectionUrl s) \<and> \<not> connecting k \<longrightarrow>
         socket (handleAppStateChange active s) = None \<and>
         status (handleAppStateChange active s) = CONNECTING \<and>
         awaitingAuth (handleAppStateChange active s) = Suc (awaitingAuth s)))"
proof -
  have flag: "explicitDisconnect (disconnect True s)"
    by (simp add: explicitDisconnect_disconnect)
  have later: "(\<forall>url. Call_connect url \<notin> set evs) \<longrightarrow>
      explicitDisconnect (ws_run evs (disconnect True s)) \<and>
      handleAppStateChange active (ws_run evs (disconnect True s)) =
        ws_run evs (disconnect True s)"
    using explicitDisconnect_run [OF flag, of evs]
    by (simp add: handleAppStateChange_explicit)
  have conv: "socket s = Some k \<and> \<not> connected k \<and> \<not> explicitDisconnect s \<and> reconnection (options s) \<longrightarrow>
      handleAppStateChange active s = ws_connect None s \<and>
      (truthy (connectionUrl s) \<and> \<not> connecting k \<longrightarrow>
         socket (handleAppStateChange active s) = None \<and>
         status (handleAppStateChange active s) = CONNECTING \<and>
         awaitingAuth (handleAppStateChange active s) = Suc (awaitingAuth s))"
    by (auto simp: handleAppStateChange_def ws_connect_def Let_def socket_connected_def
        truthy_simps updateStatus_fields awaitingAuth_def)
  from flag later conv show ?thesis by (intro conjI)
qed

theorem appState_active_reconnects_unless_explicit_witness:
  "(let s = (new_WebSocketService (Some ''wss://host'') DEFAULT_OPTIONS :: nat WebSocketService)
              \<lparr>socket := Some \<lparr>connected = True, connecting = False, anyListener = False, emit_script = []\<rparr>,
               status := OPEN\<rparr>;
        evs = [Socket_disconnect ''io client disconnect'', AppStateChange background,
               Call_sendMessage ''ping'' [], AppStateChange active];
        t = ws_run evs (disconnect True s)
    in (\<forall>url. Call_connect url \<notin> set evs) \<and> explicitDisconnect t \<and>
       handleAppStateChange active t = t) \<and>
   (let k = \<lparr>connected = False, connecting = False, anyListener = False, emit_script = []\<rparr>;
        s = (new_WebSocketService (Some ''wss://host'') DEFAULT_OPTIONS :: nat WebSocketService)
              \<lparr>socket := Some k\<rparr>
    in socket s = Some k \<and> \<not> connected k \<and> \<not> explicitDisconnect s \<and>
       reconnection (options s) \<and> truthy (connectionUrl s) \<and> \<not> connecting k \<and>
       handleAppStateChange active s = ws_connect None s \<and>
       socket (handleAppStateChange active s) = None \<and>
       status (handleAppStateChange active s) = CONNECTING)"
proof -
  define s1 where "s1 = (new_WebSocketService (Some ''wss://host'') DEFAULT_OPTIONS :: nat WebSocketService)
              \<lparr>socket := Some \<lparr>connected = True, connecting = False, anyListener = False, emit_script = []\<rparr>,
               status := OPEN\<rparr>"
  define evs :: "nat ws_event list" where
    "evs = [Socket_disconnect ''io client disconnect'', AppStateChange background,
               Call_sendMessage ''ping'' [], AppStateChange active]"
  define k where "k = \<lparr>connected = False, connecting = False, anyListener = False, emit_script = []\<rparr>"
  define s2 where "s2 = (new_WebSocketService (Some ''wss://host'') DEFAULT_OPTIONS :: nat WebSocketService)
              \<lparr>socket := Some k\<rparr>"
  have h1: "\<forall>url. Call_connect url \<notin> set evs" by (simp add: evs_def)
  have h2: "socket s2 = Some k \<and> \<not> connected k \<and> \<not> explicitDisconnect s2 \<and> reconnection (options s2)"
    by (simp add: s2_def k_def new_WebSocketService_def DEFAULT_OPTIONS_def truthy_simps Let_def)
  have h3: "truthy (connectionUrl s2) \<and> \<not> connecting k"
    by (simp add: s2_def k_def new_WebSocketService_def DEFAULT_OPTIONS_def truthy_simps Let_def)
  note a = appState_active_reconnects_unless_explicit [of s1 evs k]
  note a2 = appState_active_reconnects_unless_explicit [of s2 evs k]
  from a have "(\<forall>url. Call_connect url \<notin> set evs) \<longrightarrow>
      explicitDisconnect (ws_run evs (disconnect True s1)) \<and>
      handleAppStateChange active (ws_run evs (disconnect True s1)) =
        ws_run evs (disconnect True s1)"
    by (rule conjunct2 [THEN conjunct1])
  with h1 have first: "explicitDisconnect (ws_run evs (disconnect True s1)) \<and>
      handleAppStateChange active (ws_run evs (disconnect True s1)) =
        ws_run evs (disconnect True s1)"
    by simp
  note m = a2 [THEN conjunct2, THEN conjunct2, THEN mp, OF h2]
  note n = m [THEN conjunct2, THEN mp, OF h3]
  have second: "handleAppStateChange active s2 = ws_connect None s2 \<and>
         socket (handleAppStateChange active s2) = None \<and>
         status (handleAppStateChange active s2) = CONNECTING"
    using m [THEN conjunct1] n [THEN conjunct1] n [THEN conjunct2, THEN conjunct1]
    by (intro conjI)
  show ?thesis
    unfolding Let_def s1_def [symmetric] evs_def [symmetric] k_def [symmetric] s2_def [symmetric]
    using h1 h2 h3 first second by (elim conjE, intro conjI)
qed

lemma socket_script_tl:
  assumes "connected k"
    and "emit_script k = [] \<or> (\<exists>sc. emit_script k = \<lparr>emit_throws = None, connected_after = True\<rparr> # sc)"
  shows "socket_emit k = (None, k\<lparr>emit_script := tl (emit_script k)\<rparr>)"
  using assms by (cases k) (auto simp: socket_emit_def)

lemma sendMessage_emit_ok:
  assumes "socket s = Some k" and "connected k"
    and "emit_script k = [] \<or> (\<exists>sc. emit_script k = \<lparr>emit_throws = None, connected_after = True\<rparr> # sc)"
  shows "sendMessage ev args s =
           (True, s\<lparr>socket := Some (k\<lparr>emit_script := tl (emit_script k)\<rparr>),
                    effects := effects s @ [SocketEmit ev args]\<rparr>)"
  using assms(1,2) by (simp add: sendMessage_def socket_script_tl [OF assms(2,3)])

lemma drain_empty: "messageQueue s = [] \<Longrightarrow> drain s = s"
  by (simp add: drain.simps [of s])

lemma drain_prefix:
  assumes "socket s = Some k" and "connected k" and "messageQueue s = pre @ q"
    and "\<forall>out \<in> set (take (length pre) (emit_script k)).
           out = \<lparr>emit_throws = None, connected_after = True\<rparr>"
  shows "drain s =
           drain (s\<lparr>messageQueue := q,
                    socket := Some (k\<lparr>emit_script := drop (length pre) (emit_script k)\<rparr>),
                    effects := effects s @ map (\<lambda>(ev, args). SocketEmit ev args) pre\<rparr>)"
  using assms
proof (induction pre arbitrary: s k)
  case Nil
  have "s\<lparr>messageQueue := q, socket := Some (k\<lparr>emit_script := drop (length []) (emit_script k)\<rparr>),
           effects := effects s @ map (\<lambda>(ev, args). SocketEmit ev args) []\<rparr> = s"
    using Nil.prems(1,3) by simp
  then show ?case by simp
next
  case (Cons item pre)
  obtain ev args where item: "item = (ev, args)" by (cases item)
  let ?k1 = "k\<lparr>emit_script := tl (emit_script k)\<rparr>"
  let ?s1 = "s\<lparr>messageQueue := pre @ q, socket := Some ?k1,
               effects := effects s @ [SocketEmit ev args]\<rparr>"
  from Cons.prems(4) have head:
    "emit_script k = [] \<or> (\<exists>sc. emit_script k = \<lparr>emit_throws = None, connected_after = True\<rparr> # sc)"
    by (cases "emit_script k") auto
  from Cons.prems(4) have rest:
    "\<forall>out \<in> set (take (length pre) (emit_script ?k1)).
       out = \<lparr>emit_throws = None, connected_after = True\<rparr>"
    by (cases "emit_script k") auto
  have sent: "sendMessage ev args (s\<lparr>messageQueue := pre @ q\<rparr>) = (True, ?s1)"
    using sendMessage_emit_ok [of "s\<lparr>messageQueue := pre @ q\<rparr>" k ev args] Cons.prems(1,2) head
    by simp
  have step: "drain s = drain ?s1"
    using Cons.prems(3) item sent by (simp add: drain.simps [of s])
  have "drain ?s1 =
          drain (?s1\<lparr>messageQueue := q,
                   socket := Some (?k1\<lparr>emit_script := drop (length pre) (emit_script ?k1)\<rparr>),
                   effects := effects ?s1 @ map (\<lambda>(ev, args). SocketEmit ev args) pre\<rparr>)"
    using Cons.prems(2) rest by (intro Cons.IH) simp_all
  with step item show ?case by (simp add: drop_Suc)
qed

lemma drain_all:
  assumes "socket s = Some k" and "connected k"
    and "\<forall>out \<in> set (take (length (messageQueue s)) (emit_script k)).
           out = \<lparr>emit_throws = None, connected_after = True\<rparr>"
  shows "drain s =
           s\<lparr>messageQueue := [],
             socket := Some (k\<lparr>emit_script := drop (length (messageQueue s)) (emit_script k)\<rparr>),
             effects := effects s @ map (\<lambda>(ev, args). SocketEmit ev args) (messageQueue s)\<rparr>"
  using drain_prefix [OF assms(1,2), of "messageQueue s" "[]"] assms(3)
  by (simp add: drain_empty)

lemma drain_disconnected_after_emit:
  assumes "socket s = Some k" and "connected k" and "queueMessages (options s)"
    and "messageQueue s = x # y # rest"
    and "emit_script k = \<lparr>emit_throws = None, connected_after = False\<rparr> # sc"
  shows "drain s =
           s\<lparr>messageQueue := y # rest @ [y],
             socket := Some (k\<lparr>connected := False, emit_script := sc\<rparr>),
             effects := effects s @ [SocketEmit (fst x) (snd x)]\<rparr>"
proof -
  let ?s1 = "s\<lparr>messageQueue := y # rest,
               socket := Some (k\<lparr>connected := False, emit_script := sc\<rparr>),
               effects := effects s @ [SocketEmit (fst x) (snd x)]\<rparr>"
  have first: "sendMessage (fst x) (snd x) (s\<lparr>messageQueue := y # rest\<rparr>) = (True, ?s1)"
    using assms(1,2,5) by (simp add: sendMessage_def socket_emit_def)
  have second: "sendMessage (fst y) (snd y) (?s1\<lparr>messageQueue := rest\<rparr>) =
                  (False, ?s1\<lparr>messageQueue := rest @ [(fst y, snd y)]\<rparr>)"
    using assms(3) by (simp add: sendMessage_def)
  have "drain s = drain ?s1"
    using assms(4) first by (simp add: drain.simps [of s])
  also have "drain ?s1 = ?s1\<lparr>messageQueue := y # rest @ [y]\<rparr>"
    using second by (simp add: drain.simps [of ?s1] socket_connected_def)
  finally show ?thesis by simp
qed

lemma drain_emit_throws_disconnected:
  assumes "socket s = Some k" and "connected k"
    and "messageQueue s = x # rest"
    and "emit_script k = \<lparr>emit_throws = Some e, connected_after = False\<rparr> # sc"
  shows "drain s =
           (handleError (as_Error e (''Emit event '' @ quoted (fst x) @ '' failed''))
              (s\<lparr>socket := Some (k\<lparr>connected := False, emit_script := sc\<rparr>),
                 effects := effects s @ [SocketEmit (fst x) (snd x)]\<rparr>))"
proof -
  let ?s1 = "handleError (as_Error e (''Emit event '' @ quoted (fst x) @ '' failed''))
              (s\<lparr>messageQueue := rest,
                 socket := Some (k\<lparr>connected := False, emit_script := sc\<rparr>),
                 effects := effects s @ [SocketEmit (fst x) (snd x)]\<rparr>)"
  have first: "sendMessage (fst x) (snd x) (s\<lparr>messageQueue := rest\<rparr>) = (False, ?s1)"
    using assms(1,2,4) by (simp add: sendMessage_def socket_emit_def)
  have nc: "\<not> socket_connected ?s1"
    by (simp add: socket_connected_def handleError_fields)
  have "drain s = ?s1\<lparr>messageQueue := x # messageQueue ?s1\<rparr>"
    using assms(3) first nc by (simp add: drain.simps [of s])
  also have "\<dots> = handleError (as_Error e (''Emit event '' @ quoted (fst x) @ '' failed''))
              (s\<lparr>socket := Some (k\<lparr>connected := False, emit_script := sc\<rparr>),
                 effects := effects s @ [SocketEmit (fst x) (snd x)]\<rparr>)"
    using assms(3) by (simp add: handleError_def split: option.splits)
  finally show ?thesis .
qed

lemma sendMessage_not_connected:
  assumes "queueMessages (options s)" and "\<not> socket_connected s"
  shows "sendMessage ev args s = (False, s\<lparr>messageQueue := messageQueue s @ [(ev, args)]\<rparr>)"
  using assms by (auto simp: sendMessage_def socket_connected_def split: option.splits)

lemma on_connect_drain:
  assumes "socket s = Some k" and "connected k" and "queueMessages (options s)"
  shows "on_connect s =
           (case onOpenCallback (drain (updateStatus OPEN s)) of
              Some cb \<Rightarrow> (drain (updateStatus OPEN s))
                           \<lparr>effects := effects (drain (updateStatus OPEN s)) @ [OnOpen cb]\<rparr>
            | None \<Rightarrow> drain (updateStatus OPEN s))"
  using assms
  by (simp add: on_connect_def Let_def processMessageQueue_def socket_connected_def
      updateStatus_fields)

lemma on_connect_all_sent:
  assumes "socket s = Some k" and "connected k" and "queueMessages (options s)"
    and "\<forall>out \<in> set (take (length (messageQueue s)) (emit_script k)).
           out = \<lparr>emit_throws = None, connected_after = True\<rparr>"
  shows "messageQueue (on_connect s) = [] \<and>
         effects (on_connect s) =
           effects (updateStatus OPEN s) @
           map (\<lambda>(ev, args). SocketEmit ev args) (messageQueue s) @
           (case onOpenCallback s of Some cb \<Rightarrow> [OnOpen cb] | None \<Rightarrow> [])"
proof -
  let ?s1 = "updateStatus OPEN s"
  have "drain ?s1 =
          ?s1\<lparr>messageQueue := [],
               socket := Some (k\<lparr>emit_script := drop (length (messageQueue ?s1)) (emit_script k)\<rparr>),
               effects := effects ?s1 @ map (\<lambda>(ev, args). SocketEmit ev args) (messageQueue ?s1)\<rparr>"
    using assms by (intro drain_all) (simp_all add: updateStatus_fields)
  then show ?thesis
    by (simp add: on_connect_drain [OF assms(1,2,3)] updateStatus_fields split: option.splits)
qed

lemma on_connect_disconnected_after_emit:
  assumes "socket s = Some k" and "connected k" and "queueMessages (options s)"
    and "messageQueue s = pre @ x # y # rest"
    and "emit_script k = replicate (length pre) \<lparr>emit_throws = None, connected_after = True\<rparr>
                         @ \<lparr>emit_throws = None, connected_after = False\<rparr> # sc"
  shows "messageQueue (on_connect s) = y # rest @ [y] \<and>
         effects (on_connect s) =
           effects (updateStatus OPEN s) @
           map (\<lambda>(ev, args). SocketEmit ev args) (pre @ [x]) @
           (case onOpenCallback s of Some cb \<Rightarrow> [OnOpen cb] | None \<Rightarrow> [])"
proof -
  let ?s1 = "updateStatus OPEN s"
  let ?k2 = "k\<lparr>emit_script := \<lparr>emit_throws = None, connected_after = False\<rparr> # sc\<rparr>"
  let ?s2 = "?s1\<lparr>messageQueue := x # y # rest, socket := Some ?k2,
                effects := effects ?s1 @ map (\<lambda>(ev, args). SocketEmit ev args) pre\<rparr>"
  have "drain ?s1 =
          drain (?s1\<lparr>messageQueue := x # y # rest,
                   socket := Some (k\<lparr>emit_script := drop (length pre) (emit_script k)\<rparr>),
                   effects := effects ?s1 @ map (\<lambda>(ev, args). SocketEmit ev args) pre\<rparr>)"
    using assms by (intro drain_prefix) (simp_all add: updateStatus_fields)
  then have "drain ?s1 = drain ?s2" using assms(5) by simp
  also have "drain ?s2 =
          ?s2\<lparr>messageQueue := y # rest @ [y],
               socket := Some (?k2\<lparr>connected := False, emit_script := sc\<rparr>),
               effects := effects ?s2 @ [SocketEmit (fst x) (snd x)]\<rparr>"
    using assms(2,3) by (intro drain_disconnected_after_emit) (simp_all add: updateStatus_fields)
  finally show ?thesis
    by (simp add: on_connect_drain [OF assms(1,2,3)] updateStatus_fields case_prod_unfold
        split: option.splits)
qed

lemma on_connect_emit_throws_disconnected:
  assumes "socket s = Some k" and "connected k" and "queueMessages (options s)"
    and "messageQueue s = pre @ x # rest"
    and "emit_script k = replicate (length pre) \<lparr>emit_throws = None, connected_after = True\<rparr>
                         @ \<lparr>emit_throws = Some e, connected_after = False\<rparr> # sc"
  shows "messageQueue (on_connect s) = x # rest \<and>
         effects (on_connect s) =
           effects (updateStatus OPEN s) @
           map (\<lambda>(ev, args). SocketEmit ev args) (pre @ [x]) @
           (case onErrorCallback s of
              Some cb \<Rightarrow> [OnError cb (as_Error e (''Emit event '' @ quoted (fst x) @ '' failed''))]
            | None \<Rightarrow> []) @
           (case onOpenCallback s of Some cb \<Rightarrow> [OnOpen cb] | None \<Rightarrow> [])"
proof -
  let ?s1 = "updateStatus OPEN s"
  let ?k2 = "k\<lparr>emit_script := \<lparr>emit_throws = Some e, connected_after = False\<rparr> # sc\<rparr>"
  let ?s2 = "?s1\<lparr>messageQueue := x # rest, socket := Some ?k2,
                effects := effects ?s1 @ map (\<lambda>(ev, args). SocketEmit ev args) pre\<rparr>"
  have cbs: "onErrorCallback ?s1 = onErrorCallback s"
    by (simp add: updateStatus_def Let_def split: option.splits)
  have "drain ?s1 =
          drain (?s1\<lparr>messageQueue := x # rest,
                   socket := Some (k\<lparr>emit_script := drop (length pre) (emit_script k)\<rparr>),
                   effects := effects ?s1 @ map (\<lambda>(ev, args). SocketEmit ev args) pre\<rparr>)"
    using assms by (intro drain_prefix) (simp_all add: updateStatus_fields)
  then have "drain ?s1 = drain ?s2" using assms(5) by simp
  also have "drain ?s2 =
          handleError (as_Error e (''Emit event '' @ quoted (fst x) @ '' failed''))
              (?s2\<lparr>socket := Some (?k2\<lparr>connected := False, emit_script := sc\<rparr>),
                 effects := effects ?s2 @ [SocketEmit (fst x) (snd x)]\<rparr>)"
    using assms(2) by (intro drain_emit_throws_disconnected) simp_all
  finally show ?thesis
    by (simp add: on_connect_drain [OF assms(1,2,3)] updateStatus_fields handleError_def cbs
        case_prod_unfold split: option.splits)
qed

text \<open>
  An event whose \<^verbatim>\<open>emit\<close> throws while the socket stays connected is neither sent nor kept:
  \<^verbatim>\<open>sendMessage\<close> reports the error and returns false, and the loop goes on with the events
  behind it.
\<close>

lemma drain_emit_throws_connected:
  assumes "socket s = Some k" and "connected k"
    and "messageQueue s = x # rest"
    and "emit_script k = \<lparr>emit_throws = Some e, connected_after = True\<rparr> # sc"
  shows "drain s =
           drain (handleError (as_Error e (''Emit event '' @ quoted (fst x) @ '' failed''))
              (s\<lparr>messageQueue := rest, socket := Some (k\<lparr>emit_script := sc\<rparr>),
                 effects := effects s @ [SocketEmit (fst x) (snd x)]\<rparr>))"
proof -
  let ?s1 = "handleError (as_Error e (''Emit event '' @ quoted (fst x) @ '' failed''))
              (s\<lparr>messageQueue := rest, socket := Some (k\<lparr>emit_script := sc\<rparr>),
                 effects := effects s @ [SocketEmit (fst x) (snd x)]\<rparr>)"
  have k: "k\<lparr>connected := True, emit_script := sc\<rparr> = k\<lparr>emit_script := sc\<rparr>"
    using assms(2) by simp
  have first: "sendMessage (fst x) (snd x) (s\<lparr>messageQueue := rest\<rparr>) = (False, ?s1)"
    using assms(1,2,4) by (simp add: sendMessage_def socket_emit_def k)
  have c: "socket_connected ?s1"
    using assms(2) by (simp add: socket_connected_def handleError_fields)
  show ?thesis
    using assms(3) first c by (simp add: drain.simps [of s])
qed

text \<open>
  C4. A service with the default options (\<open>queueMessages\<close> on) and an error callback gets
  three events to send before it has a socket, and \<open>connect\<close> is called: the events are
  queued in the order of the calls and nothing is emitted (\<open>s0\<close>). The socket is created,
  connects and raises \<open>connect\<close>; the emit of the first event succeeds and the socket is
  found disconnected afterwards (\<open>s1\<close>). The second event is not emitted. It is then in
  the queue twice, at the front and at the end: \<open>sendMessage\<close> has appended it to the queue
  before \<open>processMessageQueue\<close> puts it back in front. When the socket has connected
  again (\<open>s2\<close>), the events emitted are the second, the third and the second once more.
  In another run from \<open>s0\<close> the emit of the first event throws and the socket stays
  connected (\<open>s3\<close>): the error callback is called, the other two events are emitted,
  and the queue is empty, so the first event is gone.
\<close>

theorem drain_requeues_event_twice:
  "(let b = (new_WebSocketService (Some ''wss://host'') DEFAULT_OPTIONS :: nat WebSocketService);
        queued = [Call_setOnError 7, Call_sendMessage ''a'' [1], Call_sendMessage ''b'' [2],
                  Call_sendMessage ''c'' [3], Call_connect None];
        k = \<lparr>connected = False, connecting = True, anyListener = False,
             emit_script = [\<lparr>emit_throws = None, connected_after = False\<rparr>]\<rparr>;
        s0 = ws_run queued b;
        s1 = ws_run [Resume_connect 0 (Inr []) (IoSocket k), Socket_flags True False,
                     Socket_connect] s0;
        s2 = ws_run [Socket_disconnect ''transport close'', Socket_flags True False,
                     Socket_connect] s1;
        k' = \<lparr>connected = False, connecting = True, anyListener = False,
              emit_script = [\<lparr>emit_throws = Some OtherValue, connected_after = True\<rparr>]\<rparr>;
        s3 = ws_run [Resume_connect 0 (Inr []) (IoSocket k'), Socket_flags True False,
                     Socket_connect] s0
    in messageQueue s0 = [(''a'', [1]), (''b'', [2]), (''c'', [3])] \<and>
       effects s0 = [] \<and>
       messageQueue s1 = [(''b'', [2]), (''c'', [3]), (''b'', [2])] \<and>
       effects s1 = [SocketRemoveAllListeners, IoConnect (Some ''wss://host'') None,
                     SocketEmit ''a'' [1]] \<and>
       messageQueue s2 = [] \<and>
       effects s2 = effects s1 @
                    [SocketEmit ''b'' [2], SocketEmit ''c'' [3], SocketEmit ''b'' [2]] \<and>
       messageQueue s3 = [] \<and>
       effects s3 = [SocketRemoveAllListeners, IoConnect (Some ''wss://host'') None,
                     SocketEmit ''a'' [1], OnError 7 (ErrorObject (''Emit event '' @ quoted ''a'' @ '' failed'')),
                     SocketEmit ''b'' [2], SocketEmit ''c'' [3]])"
  by code_simp

end
